theory Spec2Isabelle
  imports Main "HOL-Library.Char_ord" "HOL-Library.List_Lexorder"
begin

section \<open>Strings of the host language\<close>

text \<open>
  Strings are lists of characters. \<open>toLowerCase\<close> lowers the ASCII letters and leaves every
  other character alone: it is the byte-lowercasing that a \<open>Headers\<close> object applies to
  header names. \<open>String.prototype.toUpperCase\<close> also maps letters outside ASCII; it is a
  function of the runtime (below), and \<open>ascii_toUpperCase\<close> is what it does on ASCII text.
\<close>

definition lower_letters :: string where
  "lower_letters = ''abcdefghijklmnopqrstuvwxyz''"

definition upper_letters :: string where
  "upper_letters = ''ABCDEFGHIJKLMNOPQRSTUVWXYZ''"

definition upper_char :: "char \<Rightarrow> char" where
  "upper_char c = (case map_of (zip lower_letters upper_letters) c of Some u \<Rightarrow> u | None \<Rightarrow> c)"

definition lower_char :: "char \<Rightarrow> char" where
  "lower_char c = (case map_of (zip upper_letters lower_letters) c of Some l \<Rightarrow> l | None \<Rightarrow> c)"

definition ascii_toUpperCase :: "string \<Rightarrow> string" where
  "ascii_toUpperCase s = map upper_char s"

definition toLowerCase :: "string \<Rightarrow> string" where
  "toLowerCase s = map lower_char s"

text \<open>\<open>Array.prototype.join\<close>: the empty array gives the empty string.\<close>

fun join :: "string \<Rightarrow> string list \<Rightarrow> string" where
  "join sep [] = []"
| "join sep [x] = x"
| "join sep (x # y # ys) = x @ sep @ join sep (y # ys)"

text \<open>\<open>String.prototype.split\<close> on a one-character separator: always at least one piece.\<close>

fun split_on :: "char \<Rightarrow> string \<Rightarrow> string list" where
  "split_on c [] = [[]]"
| "split_on c (x # xs) =
     (if x = c then [] # split_on c xs
      else (case split_on c xs of
              [] \<Rightarrow> [[x]]
            | s # ss \<Rightarrow> (x # s) # ss))"

text \<open>The decimal digits of an integer, as \<open>String\<close> renders one.\<close>

fun digits :: "nat \<Rightarrow> string" where
  "digits n =
     (if n < 10 then [''0123456789'' ! n]
      else digits (n div 10) @ [''0123456789'' ! (n mod 10)])"

definition String_int :: "int \<Rightarrow> string" where
  "String_int i = (if i < 0 then CHR ''-'' # digits (nat (- i)) else digits (nat i))"

definition startsWith :: "string \<Rightarrow> string \<Rightarrow> bool" where
  "startsWith s p = (take (length p) s = p)"

definition endsWith :: "string \<Rightarrow> string \<Rightarrow> bool" where
  "endsWith s p = (length p \<le> length s \<and> drop (length s - length p) s = p)"

text \<open>
  Header values are normalised when they are stored: leading and trailing HTTP whitespace
  (tab, line feed, carriage return, space) is removed.
\<close>

definition http_whitespace :: "char \<Rightarrow> bool" where
  "http_whitespace c = (c = CHR 0x09 \<or> c = CHR 0x0A \<or> c = CHR 0x0D \<or> c = CHR 0x20)"

definition http_trim :: "string \<Rightarrow> string" where
  "http_trim s = rev (dropWhile http_whitespace (rev (dropWhile http_whitespace s)))"

section \<open>The runtime\<close>

text \<open>
  Bodies. A binary-like value is an \<open>ArrayBuffer\<close>, a view on one, a \<open>Blob\<close> (with its media
  type, empty when it has none; a file of the runtime is a \<open>Blob\<close>) or a \<open>ReadableStream\<close>.
\<close>

datatype binary_like =
    ArrayBuffer string
  | ArrayBufferView string
  | Blob string string
  | ReadableStream string

datatype body = NoBody | TextBody string | BinaryBody binary_like

datatype exn = Error string | TypeError string | URIError string

record 'n disk_file =
  file_type :: string
  file_size :: 'n
  file_content :: string

text \<open>
  What the code takes from its host. Numbers (\<open>'n\<close>) and structured objects (\<open>'o\<close>) are the
  host's: \<open>String_number\<close> is the \<open>String\<close> conversion of a number, \<open>Math_max_zero\<close> is
  \<open>Math.max(0, n)\<close>, and \<open>JSON_stringify\<close> serialises an object or raises (a cyclic
  object, a \<open>BigInt\<close> inside). \<open>toUpperCase\<close> is \<open>String.prototype.toUpperCase\<close>.
  \<open>body_media_type\<close> is the media type the \<open>Response\<close> constructor puts in the headers for a
  body when the init names none, and \<open>json_type_params\<close> is what \<open>Response.json\<close> writes after
  \<open>application/json\<close> (nothing, or a charset parameter): runtimes differ on both. Then the
  working directory, the files on disk (\<open>Bun.file\<close>: \<open>None\<close> when the path names no file),
  \<open>decodeURIComponent\<close>, which raises on a malformed escape, and the router of the HTTP
  server, which picks among the declared patterns the one that matches the path of a
  request, if any.
\<close>

record ('n, 'o) runtime =
  String_number :: "'n \<Rightarrow> string"
  Math_max_zero :: "'n \<Rightarrow> 'n"
  JSON_stringify :: "'o \<Rightarrow> exn + string"
  toUpperCase :: "string \<Rightarrow> string"
  body_media_type :: "body \<Rightarrow> string option"
  json_type_params :: string
  cwd :: string
  file_at :: "string \<Rightarrow> 'n disk_file option"
  decodeURIComponent :: "string \<Rightarrow> exn + string"
  route_match :: "string list \<Rightarrow> string \<Rightarrow> string option"

section \<open>Headers and responses\<close>

text \<open>
  A \<open>Headers\<close> object holds a header list: pairs of a lower-cased name and a normalised
  value, where a name may be repeated. Names are compared without regard to case.
  \<open>get\<close> combines the values of a name with a comma and a space; \<open>append\<close> adds a pair at
  the end; \<open>set\<close> gives the first pair of the name the new value and removes the others,
  or appends. Iteration (\<open>forEach\<close>) visits the names in sorted order, each once with its
  combined value, except \<open>set-cookie\<close>, whose values are visited one by one. A
  \<open>HeadersInit\<close> is a list of name/value pairs, each appended in turn. Names and values
  are taken to be valid header names and values.
\<close>

type_synonym headers = "(string \<times> string) list"

definition values_of :: "headers \<Rightarrow> string \<Rightarrow> string list" where
  "values_of hs n = map snd (filter (\<lambda>(m, v). m = n) hs)"

definition combined :: "headers \<Rightarrow> string \<Rightarrow> string option" where
  "combined hs n = (case values_of hs n of [] \<Rightarrow> None | v # vs \<Rightarrow> Some (join '', '' (v # vs)))"

definition h_get :: "headers \<Rightarrow> string \<Rightarrow> string option" where
  "h_get hs k = combined hs (toLowerCase k)"

definition h_has :: "headers \<Rightarrow> string \<Rightarrow> bool" where
  "h_has hs k = (values_of hs (toLowerCase k) \<noteq> [])"

definition h_append :: "headers \<Rightarrow> string \<Rightarrow> string \<Rightarrow> headers" where
  "h_append hs k v = hs @ [(toLowerCase k, http_trim v)]"

fun set_first :: "string \<Rightarrow> string \<Rightarrow> headers \<Rightarrow> headers" where
  "set_first n v [] = []"
| "set_first n v ((m, w) # hs) =
     (if m = n then (n, v) # filter (\<lambda>(m', w'). m' \<noteq> n) hs else (m, w) # set_first n v hs)"

definition h_set :: "headers \<Rightarrow> string \<Rightarrow> string \<Rightarrow> headers" where
  "h_set hs k v =
     (if h_has hs k then set_first (toLowerCase k) (http_trim v) hs
      else hs @ [(toLowerCase k, http_trim v)])"

definition Headers_new :: "(string \<times> string) list \<Rightarrow> headers" where
  "Headers_new init = foldl (\<lambda>hs (k, v). h_append hs k v) [] init"

definition h_entries :: "headers \<Rightarrow> (string \<times> string) list" where
  "h_entries hs =
     concat (map (\<lambda>n. if n = ''set-cookie'' then map (Pair n) (values_of hs n)
                       else (case combined hs n of None \<Rightarrow> [] | Some v \<Rightarrow> [(n, v)]))
               (sort (remdups (map fst hs))))"

record response =
  status :: nat
  headers :: headers
  body :: body

text \<open>
  The \<open>Response\<close> constructor: the headers of the init, and the media type the runtime
  gives the body as \<open>Content-Type\<close> when the init names none. \<open>Response.json\<close>
  serialises its argument, which can raise, and declares \<open>application/json\<close>.
\<close>

definition Response_new ::
  "('n, 'o) runtime \<Rightarrow> body \<Rightarrow> nat \<Rightarrow> (string \<times> string) list \<Rightarrow> response"
where
  "Response_new rt b st init =
     (let hs = Headers_new init in
      \<lparr>status = st,
       headers = (case body_media_type rt b of
                    None \<Rightarrow> hs
                  | Some t \<Rightarrow> if h_has hs ''content-type'' then hs
                             else h_append hs ''content-type'' t),
       body = b\<rparr>)"

definition Response_json :: "('n, 'o) runtime \<Rightarrow> 'o \<Rightarrow> exn + response" where
  "Response_json rt payload =
     (case JSON_stringify rt payload of
        Inl e \<Rightarrow> Inl e
      | Inr text \<Rightarrow>
          Inr \<lparr>status = 200,
               headers = h_append [] ''content-type'' (''application/json'' @ json_type_params rt),
               body = TextBody text\<rparr>)"

section \<open>Response normalisation\<close>

text \<open>
  \<open>applyBaseHeaders\<close>: without base headers the response is returned as it is; otherwise
  the base headers are iterated, and every entry whose name the response does not have at
  that moment is set on it.
\<close>

definition applyBaseHeaders :: "response \<Rightarrow> (string \<times> string) list option \<Rightarrow> response" where
  "applyBaseHeaders response baseHeaders =
     (case baseHeaders of
        None \<Rightarrow> response
      | Some init \<Rightarrow>
          response\<lparr>headers :=
            foldl (\<lambda>hs (key, value). if \<not> h_has hs key then h_set hs key value else hs)
              (headers response) (h_entries (Headers_new init))\<rparr>)"

text \<open>
  What a handler may return, and what the normaliser asks of a value: whether it is a
  \<open>Response\<close>, \<open>undefined\<close> or \<open>null\<close>, its \<open>typeof\<close>, whether it is binary-like, and its
  \<open>String\<close> form. A function and a symbol are outside the declared result type; they
  reach the last line of the normaliser.
\<close>

datatype ('n, 'o) handler_result =
    RResponse response
  | RUndefined
  | RNull
  | RString string
  | RNumber 'n
  | RBoolean bool
  | RBigint int
  | RBinary binary_like
  | RObject 'o
  | RFunction string
  | RSymbol string

definition is_nullish :: "('n, 'o) handler_result \<Rightarrow> bool" where
  "is_nullish v = (case v of RUndefined \<Rightarrow> True | RNull \<Rightarrow> True | _ \<Rightarrow> False)"

definition typeof :: "('n, 'o) handler_result \<Rightarrow> string" where
  "typeof v =
     (case v of
        RUndefined \<Rightarrow> ''undefined''
      | RString s \<Rightarrow> ''string''
      | RNumber n \<Rightarrow> ''number''
      | RBoolean b \<Rightarrow> ''boolean''
      | RBigint i \<Rightarrow> ''bigint''
      | RFunction f \<Rightarrow> ''function''
      | RSymbol d \<Rightarrow> ''symbol''
      | _ \<Rightarrow> ''object'')"

definition isBinaryLike :: "('n, 'o) handler_result \<Rightarrow> bool" where
  "isBinaryLike v =
     (case v of
        RBinary b \<Rightarrow>
          (case b of
             ArrayBuffer bytes \<Rightarrow> True
           | ArrayBufferView bytes \<Rightarrow> True
           | Blob bytes t \<Rightarrow> True
           | ReadableStream bytes \<Rightarrow> True)
      | _ \<Rightarrow> False)"

text \<open>\<open>result && typeof result === "object"\<close>: of the objects only \<open>null\<close> is falsy.\<close>

definition is_object :: "('n, 'o) handler_result \<Rightarrow> bool" where
  "is_object v = (case v of RNull \<Rightarrow> False | _ \<Rightarrow> typeof v = ''object'')"

definition String_boolean :: "bool \<Rightarrow> string" where
  "String_boolean b = (if b then ''true'' else ''false'')"

definition String_value :: "('n, 'o) runtime \<Rightarrow> ('n, 'o) handler_result \<Rightarrow> string" where
  "String_value rt v =
     (case v of
        RString s \<Rightarrow> s
      | RNumber n \<Rightarrow> String_number rt n
      | RBoolean b \<Rightarrow> String_boolean b
      | RBigint i \<Rightarrow> String_int i
      | RUndefined \<Rightarrow> ''undefined''
      | RNull \<Rightarrow> ''null''
      | RFunction f \<Rightarrow> f
      | RSymbol d \<Rightarrow> ''Symbol('' @ d @ '')''
      | _ \<Rightarrow> ''[object Object]'')"

text \<open>A value as the \<open>BodyInit\<close> of a response.\<close>

definition as_body :: "('n, 'o) handler_result \<Rightarrow> body" where
  "as_body v =
     (case v of
        RString s \<Rightarrow> TextBody s
      | RBinary b \<Rightarrow> BinaryBody b
      | _ \<Rightarrow> NoBody)"

text \<open>
  \<open>normaliseResponse\<close>, test by test in the order of the source. Only \<open>Response.json\<close> can
  raise. The objects that reach the test for an object are the structured ones: a
  response, \<open>null\<close> and the binary-like values were taken before it.
\<close>

definition normaliseResponse ::
  "('n, 'o) runtime \<Rightarrow> ('n, 'o) handler_result \<Rightarrow> (string \<times> string) list option \<Rightarrow>
   exn + response"
where
  "normaliseResponse rt result baseHeaders =
     (case result of
        RResponse r \<Rightarrow> Inr (applyBaseHeaders r baseHeaders)
      | _ \<Rightarrow>
          if is_nullish result then
            Inr (applyBaseHeaders (Response_new rt NoBody 204 []) baseHeaders)
          else if typeof result = ''string'' then
            Inr (applyBaseHeaders (Response_new rt (as_body result) 200 []) baseHeaders)
          else if typeof result = ''number'' \<or> typeof result = ''boolean''
                  \<or> typeof result = ''bigint'' then
            Inr (applyBaseHeaders
                   (Response_new rt (TextBody (String_value rt result)) 200 []) baseHeaders)
          else if isBinaryLike result then
            Inr (applyBaseHeaders (Response_new rt (as_body result) 200 []) baseHeaders)
          else if is_object result then
            (case result of
               RObject payload \<Rightarrow>
                 (case Response_json rt payload of
                    Inl e \<Rightarrow> Inl e
                  | Inr r \<Rightarrow> Inr (applyBaseHeaders r baseHeaders))
             | _ \<Rightarrow>
                 Inr (applyBaseHeaders
                        (Response_new rt (TextBody (String_value rt result)) 200 [])
                        baseHeaders))
          else
            Inr (applyBaseHeaders
                   (Response_new rt (TextBody (String_value rt result)) 200 []) baseHeaders))"

section \<open>Handlers and the error boundary\<close>

record request =
  req_method :: string
  req_pathname :: string

text \<open>
  The per-request context: the request, the path of its URL and the handler-scoped
  \<open>locals\<close>, which start empty. A handler returns a result or throws; the error hook
  returns a response, nothing (\<open>None\<close>), or throws.
\<close>

record hyper_context =
  ctx_request :: request
  ctx_pathname :: string
  ctx_locals :: "(string \<times> string) list"

type_synonym ('n, 'o) handler = "hyper_context \<Rightarrow> exn + ('n, 'o) handler_result"

type_synonym error_hook = "exn \<Rightarrow> hyper_context \<Rightarrow> exn + response option"

definition localsFactory :: "(string \<times> string) list" where
  "localsFactory = []"

definition createContext :: "request \<Rightarrow> (string \<times> string) list \<Rightarrow> hyper_context" where
  "createContext request locals =
     \<lparr>ctx_request = request, ctx_pathname = req_pathname request, ctx_locals = locals\<rparr>"

definition handleError ::
  "('n, 'o) runtime \<Rightarrow> error_hook \<Rightarrow> exn \<Rightarrow> hyper_context \<Rightarrow>
   (string \<times> string) list option \<Rightarrow> response option"
where
  "handleError rt onError error ctx baseHeaders =
     (case onError error ctx of
        Inr (Some result) \<Rightarrow> Some (applyBaseHeaders result baseHeaders)
      | Inr None \<Rightarrow> None
      | Inl secondary \<Rightarrow>
          Some (applyBaseHeaders
                  (Response_new rt (TextBody ''Internal Server Error'') 500 []) baseHeaders))"

text \<open>
  \<open>executeHandler\<close>: the call of the handler and the normalisation of its result are both
  inside the \<open>try\<close>; what either raises goes to the \<open>catch\<close>.
\<close>

definition executeHandler ::
  "('n, 'o) runtime \<Rightarrow> ('n, 'o) handler \<Rightarrow> request \<Rightarrow> (string \<times> string) list \<Rightarrow>
   (string \<times> string) list option \<Rightarrow> error_hook option \<Rightarrow> response"
where
  "executeHandler rt handler request locals baseHeaders onError =
     (let ctx = createContext request locals in
      case (case handler ctx of
              Inl error \<Rightarrow> Inl error
            | Inr result \<Rightarrow> normaliseResponse rt result baseHeaders) of
        Inr response \<Rightarrow> response
      | Inl error \<Rightarrow>
          (case (case onError of
                   None \<Rightarrow> None
                 | Some hook \<Rightarrow> handleError rt hook error ctx baseHeaders) of
             Some recovery \<Rightarrow> recovery
           | None \<Rightarrow>
               applyBaseHeaders
                 (Response_new rt (TextBody ''Internal Server Error'') 500 []) baseHeaders))"

text \<open>
  \<open>cloneResponse\<close>: a copy of the response (or, should cloning fail, a new response with
  the same body, headers and status) with the base headers applied. Values here are
  immutable, so the copy is the response itself.
\<close>

definition cloneResponse :: "response \<Rightarrow> (string \<times> string) list option \<Rightarrow> response" where
  "cloneResponse response baseHeaders = applyBaseHeaders response baseHeaders"

section \<open>Method tables and route handlers\<close>

text \<open>
  The value under a key of a method table is a handler, a pre-built response, or absent
  (\<open>undefined\<close>, which the type of a partial record admits). A table lists its keys in
  declaration order.
\<close>

datatype ('n, 'o) table_value =
    VHandler "('n, 'o) handler"
  | VResponse response
  | VUndefined

type_synonym ('n, 'o) method_table = "(string \<times> ('n, 'o) table_value) list"

definition METHODS :: "string list" where
  "METHODS = [''GET'', ''POST'', ''PUT'', ''PATCH'', ''DELETE'', ''OPTIONS'', ''HEAD'']"

text \<open>
  Setting a key of an insertion-ordered map (a \<open>Map\<close>, the properties of an object): a key
  that is present keeps its place and takes the new value, a new key goes last. Adding to
  an insertion-ordered \<open>Set\<close>.
\<close>

fun map_set :: "'k \<Rightarrow> 'v \<Rightarrow> ('k \<times> 'v) list \<Rightarrow> ('k \<times> 'v) list" where
  "map_set k v [] = [(k, v)]"
| "map_set k v ((k', v') # hs) =
     (if k' = k then (k, v) # hs else (k', v') # map_set k v hs)"


definition set_add :: "'a \<Rightarrow> 'a list \<Rightarrow> 'a list" where
  "set_add x xs = (if x \<in> set xs then xs else xs @ [x])"

record ('n, 'o) normalised_table =
  methods :: "(string \<times> ('n, 'o) table_value) list"
  allowed :: "string list"

fun normalise_keys ::
  "('n, 'o) runtime \<Rightarrow> ('n, 'o) method_table \<Rightarrow> ('n, 'o) normalised_table \<Rightarrow>
   exn + ('n, 'o) normalised_table"
where
  "normalise_keys rt [] t = Inr t"
| "normalise_keys rt ((key, v) # rest) t =
     (let methodKey = toUpperCase rt key in
      if methodKey = ''ALL'' then
        (case v of
           VUndefined \<Rightarrow> normalise_keys rt rest t
         | _ \<Rightarrow> normalise_keys rt rest (t\<lparr>methods := map_set ''ALL'' v (methods t)\<rparr>))
      else if methodKey \<in> set METHODS then
        (case v of
           VUndefined \<Rightarrow> normalise_keys rt rest t
         | _ \<Rightarrow>
             normalise_keys rt rest
               (t\<lparr>methods := map_set methodKey v (methods t),
                  allowed := set_add methodKey (allowed t)\<rparr>))
      else
        Inl (TypeError (''Unsupported HTTP method key '' @ [CHR 0x22] @ key @ [CHR 0x22])))"

definition normaliseMethodTable ::
  "('n, 'o) runtime \<Rightarrow> ('n, 'o) method_table \<Rightarrow> exn + ('n, 'o) normalised_table"
where
  "normaliseMethodTable rt entry = normalise_keys rt entry \<lparr>methods = [], allowed = []\<rparr>"

text \<open>
  A route entry is a pre-built response, a handler, a method table, or something else
  (which is refused). \<open>createRouteHandler\<close> does its checks when the server is set up and
  returns the function that answers requests; for a method table that function is
  \<open>table_handler\<close>, which looks up the upper-cased method of the request, then \<open>ALL\<close>
  (\<open>selected_entry\<close>).
\<close>

datatype ('n, 'o) route_entry =
    EResponse response
  | EHandler "('n, 'o) handler"
  | ETable "('n, 'o) method_table"
  | EUnsupported

definition selected_entry ::
  "('n, 'o) runtime \<Rightarrow> ('n, 'o) normalised_table \<Rightarrow> request \<Rightarrow> ('n, 'o) table_value option"
where
  "selected_entry rt table request =
     (let method = toUpperCase rt (req_method request) in
      case map_of (methods table) method of
        Some v \<Rightarrow> Some v
      | None \<Rightarrow> map_of (methods table) ''ALL'')"

definition table_handler ::
  "('n, 'o) runtime \<Rightarrow> ('n, 'o) normalised_table \<Rightarrow> string \<Rightarrow>
   (string \<times> string) list option \<Rightarrow> error_hook option \<Rightarrow> request \<Rightarrow> response"
where
  "table_handler rt table allowHeader baseHeaders onError request =
     (case selected_entry rt table request of
        Some (VResponse r) \<Rightarrow> cloneResponse r baseHeaders
      | Some (VHandler h) \<Rightarrow> executeHandler rt h request localsFactory baseHeaders onError
      | _ \<Rightarrow>
          applyBaseHeaders
            (Response_new rt (TextBody ''Method Not Allowed'') 405
               (if allowHeader \<noteq> [] then [(''Allow'', allowHeader)] else []))
            baseHeaders)"

definition createRouteHandler ::
  "('n, 'o) runtime \<Rightarrow> ('n, 'o) route_entry \<Rightarrow> string \<Rightarrow>
   (string \<times> string) list option \<Rightarrow> error_hook option \<Rightarrow> exn + (request \<Rightarrow> response)"
where
  "createRouteHandler rt entry pattern baseHeaders onError =
     (case entry of
        EResponse r \<Rightarrow> Inr (\<lambda>request. cloneResponse r baseHeaders)
      | EHandler h \<Rightarrow>
          Inr (\<lambda>request. executeHandler rt h request localsFactory baseHeaders onError)
      | ETable entries \<Rightarrow>
          (case normaliseMethodTable rt entries of
             Inl e \<Rightarrow> Inl e
           | Inr table \<Rightarrow>
               Inr (table_handler rt table (join '', '' (allowed table)) baseHeaders onError))
      | EUnsupported \<Rightarrow>
          Inl (TypeError (''Unsupported route entry for pattern '' @ [CHR 0x22] @ pattern
                 @ [CHR 0x22])))"

fun mapRoutes ::
  "('n, 'o) runtime \<Rightarrow> (string \<times> ('n, 'o) route_entry) list \<Rightarrow>
   (string \<times> string) list option \<Rightarrow> error_hook option \<Rightarrow>
   (string \<times> (request \<Rightarrow> response)) list \<Rightarrow> exn + (string \<times> (request \<Rightarrow> response)) list"
where
  "mapRoutes rt [] baseHeaders onError mapped = Inr mapped"
| "mapRoutes rt ((pattern, entry) # routes) baseHeaders onError mapped =
     (case createRouteHandler rt entry pattern baseHeaders onError of
        Inl e \<Rightarrow> Inl e
      | Inr h \<Rightarrow> mapRoutes rt routes baseHeaders onError (map_set pattern h mapped))"

section \<open>Paths\<close>

text \<open>
  The \<open>path\<close> module of the runtime, for POSIX paths (the separator is the slash), on the
  segments of a path. \<open>normalize_segments\<close> drops empty and \<open>.\<close> segments and lets \<open>..\<close>
  remove the segment before it; above the root \<open>..\<close> is dropped, or kept when the path is
  relative. \<open>path_resolve\<close> joins its arguments from the right until one is absolute, the
  working directory last, and normalises. \<open>path_relative\<close> resolves both paths, steps up
  with \<open>..\<close> from the first to their common ancestor and down to the second.
\<close>

definition isAbsolute :: "string \<Rightarrow> bool" where
  "isAbsolute p = (p \<noteq> [] \<and> hd p = CHR ''/'')"

fun normalize_segments :: "bool \<Rightarrow> string list \<Rightarrow> string list \<Rightarrow> string list" where
  "normalize_segments allowAboveRoot [] res = res"
| "normalize_segments allowAboveRoot (seg # segs) res =
     (if seg = [] \<or> seg = ''.'' then normalize_segments allowAboveRoot segs res
      else if seg = ''..'' then
        (if res \<noteq> [] \<and> last res \<noteq> ''..''
           then normalize_segments allowAboveRoot segs (butlast res)
         else if allowAboveRoot then normalize_segments allowAboveRoot segs (res @ [''..''])
         else normalize_segments allowAboveRoot segs res)
      else normalize_segments allowAboveRoot segs (res @ [seg]))"

definition normalizeString :: "string \<Rightarrow> bool \<Rightarrow> string" where
  "normalizeString path allowAboveRoot =
     join ''/'' (normalize_segments allowAboveRoot (split_on CHR ''/'' path) [])"

fun resolve_paths :: "string list \<Rightarrow> string \<Rightarrow> string \<times> bool" where
  "resolve_paths [] resolvedPath = (resolvedPath, False)"
| "resolve_paths (p # ps) resolvedPath =
     (if p = [] then resolve_paths ps resolvedPath
      else if hd p = CHR ''/'' then (p @ ''/'' @ resolvedPath, True)
      else resolve_paths ps (p @ ''/'' @ resolvedPath))"

definition path_resolve :: "string \<Rightarrow> string list \<Rightarrow> string" where
  "path_resolve dir paths =
     (case resolve_paths (rev paths @ [dir]) [] of
        (resolvedPath, resolvedAbsolute) \<Rightarrow>
          (let n = normalizeString resolvedPath (\<not> resolvedAbsolute) in
           if resolvedAbsolute then CHR ''/'' # n
           else if n \<noteq> [] then n else ''.''))"

definition path_segments :: "string \<Rightarrow> string list" where
  "path_segments p = filter (\<lambda>s. s \<noteq> []) (split_on CHR ''/'' p)"

fun common_length :: "'a list \<Rightarrow> 'a list \<Rightarrow> nat" where
  "common_length (x # xs) (y # ys) = (if x = y then Suc (common_length xs ys) else 0)"
| "common_length xs ys = 0"

definition path_relative :: "string \<Rightarrow> string \<Rightarrow> string \<Rightarrow> string" where
  "path_relative dir from_path to_path =
     (if from_path = to_path then []
      else
        (let f = path_resolve dir [from_path]; t = path_resolve dir [to_path] in
         if f = t then []
         else
           (let fs = path_segments f; ts = path_segments t; n = common_length fs ts in
            join ''/'' (replicate (length fs - n) ''..'' @ drop n ts))))"

section \<open>Static files\<close>

record 'n static_config =
  cfg_dir :: string
  cfg_prefix :: "string option"
  cfg_index :: "string option"
  cfg_maxAge :: "'n option"

text \<open>
  \<open>normaliseRelativePath\<close>: the segments of the relative path are walked from the left;
  empty segments and \<open>.\<close> are skipped, \<open>..\<close> pops the last kept segment (popping an empty
  array leaves it empty), any other segment is kept.
\<close>

fun safe_segments :: "string list \<Rightarrow> string list \<Rightarrow> string list" where
  "safe_segments [] safe = safe"
| "safe_segments (segment # segments) safe =
     (if segment = [] \<or> segment = ''.'' then safe_segments segments safe
      else if segment = ''..'' then safe_segments segments (butlast safe)
      else safe_segments segments (safe @ [segment]))"

definition normaliseRelativePath :: "string \<Rightarrow> string" where
  "normaliseRelativePath relative =
     join ''/'' (safe_segments (split_on CHR ''/'' relative) [])"

definition sanitisePrefix :: "string \<Rightarrow> string" where
  "sanitisePrefix prefix =
     (let p1 = (if \<not> startsWith prefix ''/'' then ''/'' @ prefix else prefix) in
      if \<not> endsWith p1 ''/'' then p1 @ ''/'' else p1)"

definition isWithin :: "string \<Rightarrow> string \<Rightarrow> string \<Rightarrow> bool" where
  "isWithin dir root target =
     (let relative = path_relative dir root target in
      \<not> startsWith relative ''..'' \<and> \<not> isAbsolute relative)"

definition resolveStaticPath ::
  "('n, 'o) runtime \<Rightarrow> string \<Rightarrow> string \<Rightarrow> string \<Rightarrow> string option"
where
  "resolveStaticPath rt root relative indexFile =
     (let safeRelative = normaliseRelativePath relative;
          primary = path_resolve (cwd rt) [root, safeRelative]
      in if \<not> isWithin (cwd rt) root primary then None
         else if file_at rt primary \<noteq> None then Some primary
         else
           (let withIndex = path_resolve (cwd rt) [primary, indexFile] in
            if \<not> isWithin (cwd rt) root withIndex then None
            else if file_at rt withIndex \<noteq> None then Some withIndex
            else None))"

text \<open>
  A static handler answers \<open>GET\<close> and \<open>HEAD\<close> requests under its prefix with the file the
  path resolves to; \<open>Inr None\<close> hands the request on to the next stage.
\<close>

type_synonym static_handler =
  "request \<Rightarrow> (string \<times> string) list option \<Rightarrow> exn + response option"

definition static_response ::
  "('n, 'o) runtime \<Rightarrow> 'n disk_file \<Rightarrow> 'n option \<Rightarrow> request \<Rightarrow>
   (string \<times> string) list option \<Rightarrow> response"
where
  "static_response rt f maxAge request baseHeaders =
     (let h0 = Headers_new (case baseHeaders of None \<Rightarrow> [] | Some init \<Rightarrow> init);
          h1 = (if file_type f \<noteq> [] then h_set h0 ''Content-Type'' (file_type f) else h0);
          h2 = (case maxAge of
                  None \<Rightarrow> h1
                | Some n \<Rightarrow>
                    h_set h1 ''Cache-Control''
                      (''public, max-age='' @ String_number rt (Math_max_zero rt n)));
          h3 = h_set h2 ''Content-Length'' (String_number rt (file_size f))
      in if req_method request = ''HEAD'' then Response_new rt NoBody 200 h3
         else Response_new rt (BinaryBody (Blob (file_content f) (file_type f))) 200 h3)"

definition createStaticHandler ::
  "('n, 'o) runtime \<Rightarrow> 'n static_config \<Rightarrow> static_handler"
where
  "createStaticHandler rt config =
     (let root = path_resolve (cwd rt) [cfg_dir config];
          prefix = sanitisePrefix (case cfg_prefix config of None \<Rightarrow> ''/'' | Some p \<Rightarrow> p);
          trimmedPrefix = (if prefix = ''/'' then ''/'' else butlast prefix);
          indexFile = (case cfg_index config of None \<Rightarrow> ''index.html'' | Some i \<Rightarrow> i);
          maxAge = cfg_maxAge config
      in (\<lambda>request baseHeaders.
           if req_method request \<noteq> ''GET'' \<and> req_method request \<noteq> ''HEAD'' then Inr None
           else
             (case (if prefix = ''/'' then
                      Some (if length (req_pathname request) > 1
                            then drop 1 (req_pathname request) else [])
                    else if startsWith (req_pathname request) prefix then
                      Some (drop (length prefix) (req_pathname request))
                    else if req_pathname request = trimmedPrefix then Some []
                    else None) of
                None \<Rightarrow> Inr None
              | Some relative \<Rightarrow>
                  (case decodeURIComponent rt relative of
                     Inl e \<Rightarrow> Inl e
                   | Inr decoded \<Rightarrow>
                       (case resolveStaticPath rt root decoded indexFile of
                          None \<Rightarrow> Inr None
                        | Some targetPath \<Rightarrow>
                            (case file_at rt targetPath of
                               None \<Rightarrow> Inr None
                             | Some f \<Rightarrow>
                                 Inr (Some (static_response rt f maxAge request baseHeaders))))))))"

datatype 'a one_or_many = One 'a | Many "'a list"

definition buildStaticHandlers ::
  "('n, 'o) runtime \<Rightarrow> 'n static_config one_or_many option \<Rightarrow> static_handler list"
where
  "buildStaticHandlers rt staticDefs =
     (case staticDefs of
        None \<Rightarrow> []
      | Some (One d) \<Rightarrow> [createStaticHandler rt d]
      | Some (Many defs) \<Rightarrow> map (createStaticHandler rt) defs)"

section \<open>The server\<close>

datatype ('n, 'o) entry_or_response = NFHandler "('n, 'o) handler" | NFResponse response

definition resolveEntry ::
  "('n, 'o) runtime \<Rightarrow> ('n, 'o) entry_or_response \<Rightarrow> hyper_context \<Rightarrow>
   (string \<times> string) list option \<Rightarrow> exn + response"
where
  "resolveEntry rt entry ctx baseHeaders =
     (case entry of
        NFResponse r \<Rightarrow> Inr (cloneResponse r baseHeaders)
      | NFHandler h \<Rightarrow>
          (case h ctx of
             Inl e \<Rightarrow> Inl e
           | Inr result \<Rightarrow> normaliseResponse rt result baseHeaders))"

fun try_static ::
  "static_handler list \<Rightarrow> request \<Rightarrow> (string \<times> string) list option \<Rightarrow> exn + response option"
where
  "try_static [] request baseHeaders = Inr None"
| "try_static (handler # handlers) request baseHeaders =
     (case handler request baseHeaders of
        Inl e \<Rightarrow> Inl e
      | Inr (Some staticResponse) \<Rightarrow> Inr (Some staticResponse)
      | Inr None \<Rightarrow> try_static handlers request baseHeaders)"

text \<open>
  \<open>fetchHandler\<close>: the static handlers in order, then the not-found entry behind the error
  boundary, then the generic 404. It holds no route dispatch. The loop over the static
  handlers is outside every \<open>try\<close>: what a static handler raises, \<open>fetchHandler\<close> raises.
\<close>

definition fetchHandler ::
  "('n, 'o) runtime \<Rightarrow> static_handler list \<Rightarrow> ('n, 'o) entry_or_response option \<Rightarrow>
   error_hook option \<Rightarrow> (string \<times> string) list option \<Rightarrow> request \<Rightarrow> exn + response"
where
  "fetchHandler rt staticHandlers notFound onError baseHeaders request =
     (case try_static staticHandlers request baseHeaders of
        Inl e \<Rightarrow> Inl e
      | Inr (Some staticResponse) \<Rightarrow> Inr staticResponse
      | Inr None \<Rightarrow>
          (case notFound of
             Some entry \<Rightarrow>
               (let ctx = createContext request localsFactory in
                case resolveEntry rt entry ctx baseHeaders of
                  Inr response \<Rightarrow> Inr response
                | Inl error \<Rightarrow>
                    (case (case onError of
                             None \<Rightarrow> None
                           | Some hook \<Rightarrow> handleError rt hook error ctx baseHeaders) of
                       Some recovery \<Rightarrow> Inr recovery
                     | None \<Rightarrow>
                         Inr (applyBaseHeaders
                                (Response_new rt (TextBody ''Internal Server Error'') 500 [])
                                baseHeaders)))
           | None \<Rightarrow>
               Inr (applyBaseHeaders (Response_new rt (TextBody ''Not Found'') 404 [])
                      baseHeaders)))"

record ('n, 'o) hyper_server_options =
  opt_routes :: "(string \<times> ('n, 'o) route_entry) list option"
  opt_static :: "'n static_config one_or_many option"
  opt_notFound :: "('n, 'o) entry_or_response option"
  opt_onError :: "error_hook option"
  opt_baseHeaders :: "(string \<times> string) list option"

text \<open>
  What \<open>createServer\<close> hands to the HTTP server of the runtime: the mapped routes, when
  routes were given, and the \<open>fetch\<close> function. Mapping the routes can raise; then no
  server is made.
\<close>

record native_server =
  srv_routes :: "(string \<times> (request \<Rightarrow> response)) list option"
  srv_fetch :: "request \<Rightarrow> exn + response"

definition createServer ::
  "('n, 'o) runtime \<Rightarrow> ('n, 'o) hyper_server_options \<Rightarrow> exn + native_server"
where
  "createServer rt options =
     (let staticHandlers = buildStaticHandlers rt (opt_static options) in
      case (case opt_routes options of
              None \<Rightarrow> Inr None
            | Some routes \<Rightarrow>
                (case mapRoutes rt routes (opt_baseHeaders options) (opt_onError options) [] of
                   Inl e \<Rightarrow> Inl e
                 | Inr mapped \<Rightarrow> Inr (Some mapped))) of
        Inl e \<Rightarrow> Inl e
      | Inr mappedRoutes \<Rightarrow>
          Inr \<lparr>srv_routes = mappedRoutes,
               srv_fetch = fetchHandler rt staticHandlers (opt_notFound options)
                 (opt_onError options) (opt_baseHeaders options)\<rparr>)"

text \<open>
  The HTTP server of the runtime answers a request with the handler of the route its
  router matches, and calls \<open>fetch\<close> for a request that no route matches.
\<close>

definition Bun_serve ::
  "('n, 'o) runtime \<Rightarrow> native_server \<Rightarrow> request \<Rightarrow> exn + response"
where
  "Bun_serve rt srv request =
     (case srv_routes srv of
        None \<Rightarrow> srv_fetch srv request
      | Some routes \<Rightarrow>
          (case route_match rt (map fst routes) (req_pathname request) of
             None \<Rightarrow> srv_fetch srv request
           | Some pattern \<Rightarrow>
               (case map_of routes pattern of
                  None \<Rightarrow> srv_fetch srv request
                | Some h \<Rightarrow> Inr (h request))))"

section \<open>Server rendering: set-up and the bootstrap script\<close>

text \<open>
  A component is given as a function, as a string \<open>path#export\<close>, or as an object that may
  hold a component function, a module path and an export name; anything else is refused.
  A normalised component has the function, a module reference, or both.
\<close>

datatype 'c component_spec =
    SpecFunction 'c
  | SpecString string
  | SpecObject "'c option" "string option" "string option"
  | SpecUnsupported

record component_reference =
  modulePath :: string
  exportName :: string

record 'c normalized_component =
  nc_component :: "'c option"
  nc_reference :: "component_reference option"

datatype hydrate_setting = HydrateBool bool | HydrateFun "hyper_context \<Rightarrow> bool"

text \<open>A page, with the fields that set-up reads; \<open>page_hydrate\<close> is \<open>None\<close> when omitted.\<close>

record 'c jsx_page =
  page_component :: "'c component_spec"
  page_hydrate :: "hydrate_setting option"

definition parseComponentSpecifier :: "string \<Rightarrow> exn + (string \<times> string)" where
  "parseComponentSpecifier specifier =
     (let parts = split_on CHR ''#'' specifier;
          module = (case parts of [] \<Rightarrow> [] | m # rest \<Rightarrow> m)
      in if module = [] then
           Inl (Error (''Invalid component specifier '' @ [CHR 0x22] @ specifier @ [CHR 0x22]
                  @ ''. Expected '' @ [CHR 0x22] @ ''<path>#<export>'' @ [CHR 0x22]
                  @ '' or '' @ [CHR 0x22] @ ''<path>'' @ [CHR 0x22] @ ''.''))
         else
           Inr (module, (case drop 1 parts of [] \<Rightarrow> ''default'' | name # rest \<Rightarrow> name)))"

definition normalizeComponentSpec ::
  "string \<Rightarrow> 'c component_spec \<Rightarrow> string \<Rightarrow> exn + 'c normalized_component"
where
  "normalizeComponentSpec dir spec baseDir =
     (case spec of
        SpecFunction c \<Rightarrow> Inr \<lparr>nc_component = Some c, nc_reference = None\<rparr>
      | SpecString specifier \<Rightarrow>
          (case parseComponentSpecifier specifier of
             Inl e \<Rightarrow> Inl e
           | Inr (module, name) \<Rightarrow>
               Inr \<lparr>nc_component = None,
                    nc_reference = Some \<lparr>modulePath = path_resolve dir [baseDir, module],
                                          exportName = name\<rparr>\<rparr>)
      | SpecObject fn module export_name \<Rightarrow>
          (case fn of
             Some c \<Rightarrow>
               Inr \<lparr>nc_component = Some c,
                    nc_reference =
                      (case module of
                         None \<Rightarrow> None
                       | Some m \<Rightarrow>
                           if m = [] then None
                           else Some \<lparr>modulePath = path_resolve dir [baseDir, m],
                                      exportName = (case export_name of
                                                      None \<Rightarrow> ''default''
                                                    | Some n \<Rightarrow> n)\<rparr>)\<rparr>
           | None \<Rightarrow>
               (case module of
                  Some m \<Rightarrow>
                    Inr \<lparr>nc_component = None,
                         nc_reference = Some \<lparr>modulePath = path_resolve dir [baseDir, m],
                                               exportName = (case export_name of
                                                               None \<Rightarrow> ''default''
                                                             | Some n \<Rightarrow> n)\<rparr>\<rparr>
                | None \<Rightarrow>
                    Inl (TypeError
                      ''Unsupported component specification provided to HyperBun JSX server'')))
      | SpecUnsupported \<Rightarrow>
          Inl (TypeError
            ''Unsupported component specification provided to HyperBun JSX server''))"

definition wantsHydration :: "hydrate_setting option \<Rightarrow> bool" where
  "wantsHydration hydrate =
     (case hydrate of
        None \<Rightarrow> True
      | Some (HydrateBool b) \<Rightarrow> b
      | Some (HydrateFun f) \<Rightarrow> True)"

definition ensureHydratableCapability ::
  "string \<Rightarrow> hydrate_setting option \<Rightarrow> 'c normalized_component \<Rightarrow> bool \<Rightarrow> exn + unit"
where
  "ensureHydratableCapability route hydrate descriptor isNotFound =
     (if wantsHydration hydrate \<and> nc_reference descriptor = None then
        Inl (Error
          ((if isNotFound then ''notFoundPage''
            else ''page '' @ [CHR 0x22] @ route @ [CHR 0x22])
           @ '' is configured to hydrate but no module reference was provided. ''
           @ ''Provide a module path (e.g. '' @ [CHR 0x27] @ ''./entry.tsx#Component''
           @ [CHR 0x27] @ '') or set hydrate to false.''))
      else Inr ())"

fun buildComponentDescriptors ::
  "string \<Rightarrow> (string \<times> 'c jsx_page) list \<Rightarrow> string \<Rightarrow>
   (string \<times> 'c normalized_component) list \<Rightarrow> exn + (string \<times> 'c normalized_component) list"
where
  "buildComponentDescriptors dir [] baseDir descriptors = Inr descriptors"
| "buildComponentDescriptors dir ((route, page) # pages) baseDir descriptors =
     (case normalizeComponentSpec dir (page_component page) baseDir of
        Inl e \<Rightarrow> Inl e
      | Inr d \<Rightarrow> buildComponentDescriptors dir pages baseDir (map_set route d descriptors))"

text \<open>
  The loop of \<open>prepareJSXEnvironment\<close> over the descriptors: the page of each route is
  looked up and checked, and its module reference, if any, goes to the bundle.
\<close>

fun check_descriptors ::
  "(string \<times> 'c jsx_page) list \<Rightarrow> (string \<times> 'c normalized_component) list \<Rightarrow>
   (string \<times> component_reference) list \<Rightarrow> exn + (string \<times> component_reference) list"
where
  "check_descriptors pages [] bundleDescriptors = Inr bundleDescriptors"
| "check_descriptors pages ((route, descriptor) # rest) bundleDescriptors =
     (case map_of pages route of
        None \<Rightarrow>
          Inl (Error (''No page configuration found for route '' @ [CHR 0x22] @ route
                 @ [CHR 0x22]))
      | Some page \<Rightarrow>
          (case ensureHydratableCapability route (page_hydrate page) descriptor False of
             Inl e \<Rightarrow> Inl e
           | Inr u \<Rightarrow>
               check_descriptors pages rest
                 (case nc_reference descriptor of
                    None \<Rightarrow> bundleDescriptors
                  | Some r \<Rightarrow> map_set route r bundleDescriptors)))"

definition normalizePrefix :: "string \<Rightarrow> string" where
  "normalizePrefix prefix =
     (let p1 = (if \<not> startsWith prefix ''/'' then ''/'' @ prefix else prefix) in
      if length p1 > 1 \<and> endsWith p1 ''/'' then butlast p1 else p1)"

definition mergeStatic ::
  "'n static_config one_or_many option \<Rightarrow> 'n static_config \<Rightarrow> 'n static_config one_or_many"
where
  "mergeStatic staticDefs generated =
     (case staticDefs of
        None \<Rightarrow> One generated
      | Some (One d) \<Rightarrow> Many [d, generated]
      | Some (Many defs) \<Rightarrow> Many (defs @ [generated]))"

definition NOT_FOUND_KEY :: string where
  "NOT_FOUND_KEY = ''__hyperbun_not_found__''"

record ('c, 'n) prepare_input =
  in_pages :: "(string \<times> 'c jsx_page) list"
  in_baseDir :: string
  in_publicDir :: string
  in_publicPrefix :: string
  in_clientFileName :: string
  in_layout :: "'c component_spec option"
  in_notFoundPage :: "'c jsx_page option"
  in_static :: "'n static_config one_or_many option"

record ('c, 'n) jsx_preparation =
  prep_prefix :: string
  prep_scriptHref :: string
  prep_styleHrefs :: "string list"
  prep_descriptors :: "(string \<times> 'c normalized_component) list"
  prep_bundleDescriptors :: "(string \<times> component_reference) list"
  prep_layoutDescriptor :: "'c normalized_component option"
  prep_notFoundDescriptor :: "'c normalized_component option"
  prep_staticEntries :: "'n static_config one_or_many"

text \<open>
  \<open>prepareJSXEnvironment\<close> is the first thing \<open>createJSXServer\<close> (and each build entry point)
  does; what it raises, the set-up raises, before a server exists.
\<close>

definition prepareJSXEnvironment ::
  "string \<Rightarrow> ('c, 'n) prepare_input \<Rightarrow> exn + ('c, 'n) jsx_preparation"
where
  "prepareJSXEnvironment dir input =
     (if in_pages input = [] then
        Inl (Error ''createJSXServer requires at least one page definition'')
      else
        (let prefix = normalizePrefix (in_publicPrefix input);
             scriptHref = (if prefix = ''/'' then [] else prefix) @ ''/''
                            @ in_clientFileName input @ ''.js''
         in case buildComponentDescriptors dir (in_pages input) (in_baseDir input) [] of
              Inl e \<Rightarrow> Inl e
            | Inr descriptors \<Rightarrow>
                (case check_descriptors (in_pages input) descriptors [] of
                   Inl e \<Rightarrow> Inl e
                 | Inr bundle \<Rightarrow>
                     (case (case in_layout input of
                              None \<Rightarrow> Inr None
                            | Some l \<Rightarrow>
                                (case normalizeComponentSpec dir l (in_baseDir input) of
                                   Inl e \<Rightarrow> Inl e
                                 | Inr d \<Rightarrow> Inr (Some d))) of
                        Inl e \<Rightarrow> Inl e
                      | Inr layoutDescriptor \<Rightarrow>
                          (case (case in_notFoundPage input of
                                   None \<Rightarrow> Inr (None, bundle)
                                 | Some nf \<Rightarrow>
                                     (case normalizeComponentSpec dir (page_component nf)
                                             (in_baseDir input) of
                                        Inl e \<Rightarrow> Inl e
                                      | Inr d \<Rightarrow>
                                          (case ensureHydratableCapability ''notFound''
                                                  (page_hydrate nf) d True of
                                             Inl e \<Rightarrow> Inl e
                                           | Inr u \<Rightarrow>
                                               Inr (Some d,
                                                    (case nc_reference d of
                                                       None \<Rightarrow> bundle
                                                     | Some r \<Rightarrow>
                                                         map_set NOT_FOUND_KEY r bundle))))) of
                             Inl e \<Rightarrow> Inl e
                           | Inr (notFoundDescriptor, bundle') \<Rightarrow>
                               Inr \<lparr>prep_prefix = prefix,
                                    prep_scriptHref = scriptHref,
                                    prep_styleHrefs = [],
                                    prep_descriptors = descriptors,
                                    prep_bundleDescriptors = bundle',
                                    prep_layoutDescriptor = layoutDescriptor,
                                    prep_notFoundDescriptor = notFoundDescriptor,
                                    prep_staticEntries =
                                      mergeStatic (in_static input)
                                        \<lparr>cfg_dir = in_publicDir input,
                                         cfg_prefix = Some prefix,
                                         cfg_index = None, cfg_maxAge = None\<rparr>\<rparr>)))))"

text \<open>
  \<open>serializeProps\<close>: the JSON text of the props with every \<open><\<close> written as the six
  characters of its unicode escape (a backslash, then \<open>u003c\<close>). \<open>JSON.stringify\<close> is the
  runtime's; it gives no text (\<open>None\<close>) for a function or a symbol, and then the call on
  its result raises.
\<close>

fun replace_lt :: "string \<Rightarrow> string" where
  "replace_lt [] = []"
| "replace_lt (c # cs) =
     (if c = CHR ''<'' then [CHR 0x5C] @ ''u003c'' @ replace_lt cs else c # replace_lt cs)"

definition serializeProps :: "('p \<Rightarrow> string option) \<Rightarrow> 'p \<Rightarrow> exn + string" where
  "serializeProps stringify props =
     (case stringify props of
        None \<Rightarrow> Inl (TypeError ''undefined is not an object'')
      | Some text \<Rightarrow> Inr (replace_lt text))"

text \<open>
  \<open>sanitizeScript\<close>: a backslash is put between the two characters of every \<open></\<close>, then
  before the \<open>>\<close> of every \<open>-->\<close>; each replacement scans from the left and continues
  after a match.
\<close>

fun escape_close_tag :: "string \<Rightarrow> string" where
  "escape_close_tag (a # b # cs) =
     (if a = CHR ''<'' \<and> b = CHR ''/'' then ''<'' @ [CHR 0x5C] @ ''/'' @ escape_close_tag cs
      else a # escape_close_tag (b # cs))"
| "escape_close_tag cs = cs"

fun escape_comment_end :: "string \<Rightarrow> string" where
  "escape_comment_end (a # b # c # cs) =
     (if a = CHR ''-'' \<and> b = CHR ''-'' \<and> c = CHR ''>''
      then ''--'' @ [CHR 0x5C] @ ''>'' @ escape_comment_end cs
      else a # escape_comment_end (b # c # cs))"
| "escape_comment_end cs = cs"

definition sanitizeScript :: "string \<Rightarrow> string" where
  "sanitizeScript v = escape_comment_end (escape_close_tag v)"

record hydration_scripts_props =
  hs_hydrate :: bool
  hs_route :: string
  hs_scriptPath :: string
  hs_serializedProps :: "string option"

text \<open>
  \<open>HyperBunHydrationScripts\<close> renders nothing without hydration; otherwise an inline script
  with the bootstrap text, and a module script with the path of the bundle. The route is
  serialised by the runtime's \<open>JSON.stringify\<close>.
\<close>

definition HyperBunHydrationScripts ::
  "(string \<Rightarrow> string) \<Rightarrow> hydration_scripts_props \<Rightarrow> (string \<times> string) option"
where
  "HyperBunHydrationScripts stringify p =
     (if \<not> hs_hydrate p then None
      else
        Some (sanitizeScript
                (''globalThis.__HYPERBUN_ROUTE__='' @ stringify (hs_route p) @ '';''
                 @ (case hs_serializedProps p of
                      None \<Rightarrow> []
                    | Some sp \<Rightarrow>
                        if sp = [] then []
                        else ''globalThis.__HYPERBUN_PROPS__='' @ sp @ '';'')),
              hs_scriptPath p))"

text \<open>Whether a string occurs inside another.\<close>

fun contains :: "string \<Rightarrow> string \<Rightarrow> bool" where
  "contains [] sub = (sub = [])"
| "contains (c # cs) sub = (startsWith (c # cs) sub \<or> contains cs sub)"

section \<open>Fixtures and auxiliary notions\<close>

text \<open>
  Every name stored in a \<open>Headers\<close> object is in lower case.
\<close>

definition lower_keys :: "headers \<Rightarrow> bool" where
  "lower_keys hs = list_all (\<lambda>k. toLowerCase k = k) (map fst hs)"

text \<open>
  Hosts for the examples. Numbers are integers. An object is a plain one, which serialises
  to its own text, or a cyclic one, which the serialiser refuses. Upper-casing is the one
  of ASCII. As observed of the runtime the code is written for, the \<open>Response\<close>
  constructor puts no media type in the headers for a string and the type of a typed
  \<open>Blob\<close> for a \<open>Blob\<close>, and \<open>Response.json\<close> adds a charset. The working directory is
  \<open>/srv/app\<close>, the disk holds the one file \<open>/srv/app/public/index.html\<close>, a lone percent
  sign is a malformed escape, and the router matches a path that is a declared pattern.
  \<open>standard_runtime\<close> differs in what the \<open>Response\<close> constructor and \<open>Response.json\<close> put
  in the headers: the media types of the Fetch standard.
\<close>

datatype example_object = Plain string | Cyclic

definition example_stringify :: "example_object \<Rightarrow> exn + string" where
  "example_stringify obj =
     (case obj of
        Plain text \<Rightarrow> Inr text
      | Cyclic \<Rightarrow> Inl (TypeError ''JSON.stringify cannot serialize cyclic structures.''))"

definition example_media_type :: "body \<Rightarrow> string option" where
  "example_media_type b =
     (case b of
        BinaryBody (Blob bytes t) \<Rightarrow> (if t = [] then None else Some t)
      | _ \<Rightarrow> None)"

definition example_decode :: "string \<Rightarrow> exn + string" where
  "example_decode s = (if s = ''%'' then Inl (URIError ''URI error'') else Inr s)"

definition example_runtime :: "(int, example_object) runtime" where
  "example_runtime =
     \<lparr>String_number = String_int, Math_max_zero = max 0,
      JSON_stringify = example_stringify, toUpperCase = ascii_toUpperCase,
      body_media_type = example_media_type, json_type_params = '';charset=utf-8'',
      cwd = ''/srv/app'',
      file_at = (\<lambda>p. if p = ''/srv/app/public/index.html''
                       then Some \<lparr>file_type = ''text/html'', file_size = 5, file_content = ''hello''\<rparr>
                       else None),
      decodeURIComponent = example_decode,
      route_match = (\<lambda>patterns p. if p \<in> set patterns then Some p else None)\<rparr>"

definition standard_media_type :: "body \<Rightarrow> string option" where
  "standard_media_type b =
     (case b of
        TextBody s \<Rightarrow> Some ''text/plain;charset=UTF-8''
      | BinaryBody (Blob bytes t) \<Rightarrow> (if t = [] then None else Some t)
      | _ \<Rightarrow> None)"

definition standard_runtime :: "(int, example_object) runtime" where
  "standard_runtime =
     example_runtime\<lparr>body_media_type := standard_media_type, json_type_params := []\<rparr>"

text \<open>
  What base-header merging gives a response for a name it lacks: nothing when no base
  header has the name; else the values the base headers give the name (each without its
  surrounding whitespace), joined by a comma and a space; for \<open>Set-Cookie\<close>, the first of
  them alone. Names are compared without regard to case.
\<close>

definition init_values :: "(string \<times> string) list \<Rightarrow> string \<Rightarrow> string list" where
  "init_values init k =
     map (\<lambda>(k', v). http_trim v) (filter (\<lambda>(k', v). toLowerCase k' = toLowerCase k) init)"

definition base_value :: "(string \<times> string) list option \<Rightarrow> string \<Rightarrow> string option" where
  "base_value baseHeaders k =
     (case baseHeaders of
        None \<Rightarrow> None
      | Some init \<Rightarrow>
          (case init_values init k of
             [] \<Rightarrow> None
           | v # vs \<Rightarrow>
               Some (if toLowerCase k = ''set-cookie'' then v
                     else http_trim (join '', '' (v # vs)))))"

text \<open>
  The header a response made by the \<open>Response\<close> constructor without init headers has under
  a name: the media type of the body, for \<open>Content-Type\<close>.
\<close>

definition constructed_value :: "('n, 'o) runtime \<Rightarrow> body \<Rightarrow> string \<Rightarrow> string option" where
  "constructed_value rt b k =
     (case body_media_type rt b of
        None \<Rightarrow> None
      | Some t \<Rightarrow> if toLowerCase k = ''content-type'' then Some (http_trim t) else None)"

text \<open>
  Reading a method table as declared: its keys upper-cased, the entry a verb has (the last
  one with a value among the keys that upper-case to the verb), and the verbs it declares,
  each once, in the order of their first declaration, the wildcard left out.
\<close>

definition is_defined :: "('n, 'o) table_value \<Rightarrow> bool" where
  "is_defined v = (case v of VUndefined \<Rightarrow> False | _ \<Rightarrow> True)"

definition upper_entries :: "('n, 'o) runtime \<Rightarrow> ('n, 'o) method_table \<Rightarrow> ('n, 'o) method_table" where
  "upper_entries rt entries = map (\<lambda>(k, v). (toUpperCase rt k, v)) entries"

definition entry_for ::
  "('n, 'o) runtime \<Rightarrow> ('n, 'o) method_table \<Rightarrow> string \<Rightarrow> ('n, 'o) table_value option"
where
  "entry_for rt entries verb =
     map_of (rev (filter (\<lambda>(k, v). is_defined v) (upper_entries rt entries))) verb"

fun nub :: "'a list \<Rightarrow> 'a list" where
  "nub [] = []"
| "nub (x # xs) = x # filter (\<lambda>y. y \<noteq> x) (nub xs)"

definition declared_verbs :: "('n, 'o) runtime \<Rightarrow> ('n, 'o) method_table \<Rightarrow> string list" where
  "declared_verbs rt entries =
     nub (filter (\<lambda>k. k \<noteq> ''ALL'')
            (map fst (filter (\<lambda>(k, v). is_defined v) (upper_entries rt entries))))"

text \<open>
  How the entry of a method table answers a request: a handler is executed, a pre-built
  response is cloned. A key is accepted when it upper-cases to a recognised verb or to
  \<open>ALL\<close>. A table has a value for a verb when one of its keys with a value upper-cases to
  the verb.
\<close>

definition answer ::
  "('n, 'o) runtime \<Rightarrow> ('n, 'o) table_value \<Rightarrow> (string \<times> string) list option \<Rightarrow>
   error_hook option \<Rightarrow> request \<Rightarrow> response option"
where
  "answer rt v base onError request =
     (case v of
        VHandler f \<Rightarrow> Some (executeHandler rt f request localsFactory base onError)
      | VResponse r \<Rightarrow> Some (cloneResponse r base)
      | VUndefined \<Rightarrow> None)"

definition accepted_key :: "('n, 'o) runtime \<Rightarrow> string \<Rightarrow> bool" where
  "accepted_key rt k = (toUpperCase rt k = ''ALL'' \<or> toUpperCase rt k \<in> set METHODS)"

definition has_value_for :: "('n, 'o) runtime \<Rightarrow> ('n, 'o) method_table \<Rightarrow> string \<Rightarrow> bool" where
  "has_value_for rt entries verb =
     list_ex (\<lambda>(k, v). is_defined v \<and> toUpperCase rt k = verb) entries"

definition example_ok :: response where
  "example_ok = \<lparr>status = 200, headers = [(''content-type'', ''application/json'')],
                  body = TextBody ''{}''\<rparr>"

definition example_post :: request where
  "example_post = \<lparr>req_method = ''POST'', req_pathname = ''/resource''\<rparr>"

definition example_get :: request where
  "example_get = \<lparr>req_method = ''get'', req_pathname = ''/resource''\<rparr>"

definition example_get_table :: "(int, example_object) method_table" where
  "example_get_table = [(''get'', VResponse example_ok)]"

definition example_get_normalised :: "(int, example_object) normalised_table" where
  "example_get_normalised = \<lparr>methods = [(''GET'', VResponse example_ok)], allowed = [''GET'']\<rparr>"


definition example_created :: response where
  "example_created = \<lparr>status = 201, headers = [], body = TextBody ''created''\<rparr>"

definition example_any :: "(int, example_object) handler" where
  "example_any ctx = Inr (RString (req_method (ctx_request ctx)))"

definition example_mixed_table :: "(int, example_object) method_table" where
  "example_mixed_table =
     [(''get'', VResponse example_ok), (''Post'', VResponse example_created),
      (''All'', VHandler example_any)]"

definition example_verbs_table :: "(int, example_object) method_table" where
  "example_verbs_table = [(''get'', VResponse example_ok), (''Post'', VResponse example_created)]"

definition example_delete :: request where
  "example_delete = \<lparr>req_method = ''delete'', req_pathname = ''/resource''\<rparr>"

definition example_powered :: "(string \<times> string) list" where
  "example_powered = [(''X-Powered-By'', '' hyperbun ''), (''Content-Type'', ''text/plain'')]"


definition example_page :: response where
  "example_page = \<lparr>status = 201, headers = [(''content-type'', ''text/html'')],
                    body = TextBody ''hi''\<rparr>"

text \<open>
  A request to the server made from the options: the answer of the runtime's HTTP server,
  when \<open>createServer\<close> made one. \<open>unrouted\<close>: the router finds no route for the request.
\<close>

definition handle_request ::
  "('n, 'o) runtime \<Rightarrow> ('n, 'o) hyper_server_options \<Rightarrow> request \<Rightarrow> exn + response"
where
  "handle_request rt options request =
     (case createServer rt options of
        Inl e \<Rightarrow> Inl e
      | Inr srv \<Rightarrow> Bun_serve rt srv request)"

definition unrouted :: "('n, 'o) runtime \<Rightarrow> native_server \<Rightarrow> request \<Rightarrow> bool" where
  "unrouted rt srv request =
     (case srv_routes srv of
        None \<Rightarrow> True
      | Some routes \<Rightarrow>
          (case route_match rt (map fst routes) (req_pathname request) of
             None \<Rightarrow> True
           | Some pattern \<Rightarrow> map_of routes pattern = None))"

definition example_static :: "int static_config" where
  "example_static = \<lparr>cfg_dir = ''public'', cfg_prefix = None, cfg_index = None, cfg_maxAge = None\<rparr>"

definition example_home :: response where
  "example_home = \<lparr>status = 200, headers = [(''content-type'', ''text/html; charset=utf-8'')],
                    body = TextBody ''<h1>Hello</h1>''\<rparr>"

definition example_route_options :: "(int, example_object) hyper_server_options" where
  "example_route_options =
     \<lparr>opt_routes = Some [(''/'', EResponse example_home)],
      opt_static = Some (One example_static), opt_notFound = None, opt_onError = None,
      opt_baseHeaders = None\<rparr>"

definition example_index_get :: request where
  "example_index_get = \<lparr>req_method = ''GET'', req_pathname = ''/index.html''\<rparr>"

definition example_missing_get :: request where
  "example_missing_get = \<lparr>req_method = ''GET'', req_pathname = ''/missing''\<rparr>"

definition example_server :: native_server where
  "example_server =
     \<lparr>srv_routes = Some [(''/'', \<lambda>request. cloneResponse example_home None)],
      srv_fetch = fetchHandler example_runtime
        [createStaticHandler example_runtime example_static] None None None\<rparr>"

definition example_root_get :: request where
  "example_root_get = \<lparr>req_method = ''GET'', req_pathname = ''/''\<rparr>"

text \<open>
  A server with a static directory, a route whose handler throws, a not-found handler that
  throws, and an error hook that answers every error with status 555; and a request whose
  path holds a malformed escape.
\<close>

definition example_hook :: error_hook where
  "example_hook error ctx =
     Inr (Some \<lparr>status = 555, headers = [], body = TextBody ''handled''\<rparr>)"

definition example_throwing :: "(int, example_object) handler" where
  "example_throwing ctx = Inl (Error ''boom'')"

definition example_hook_options :: "(int, example_object) hyper_server_options" where
  "example_hook_options =
     \<lparr>opt_routes = Some [(''/boom'', EHandler example_throwing)],
      opt_static = Some (One example_static),
      opt_notFound = Some (NFHandler example_throwing),
      opt_onError = Some example_hook,
      opt_baseHeaders = Some [(''X-Powered-By'', ''hyperbun'')]\<rparr>"

definition example_malformed_get :: request where
  "example_malformed_get = \<lparr>req_method = ''GET'', req_pathname = ''/%''\<rparr>"

definition example_boom_get :: request where
  "example_boom_get = \<lparr>req_method = ''GET'', req_pathname = ''/boom''\<rparr>"

text \<open>
  The segments of a normalised path: none is empty, \<open>.\<close> or \<open>..\<close>, none holds a slash. A
  path is lexically within a root when it is absolute, its segments start with the
  segments of the root, and none of them is \<open>..\<close>.
\<close>

definition clean_segments :: "string list \<Rightarrow> bool" where
  "clean_segments ns =
     list_all (\<lambda>s. s \<noteq> [] \<and> s \<noteq> ''.'' \<and> s \<noteq> ''..'' \<and> CHR ''/'' \<notin> set s) ns"

definition lexically_within :: "string \<Rightarrow> string \<Rightarrow> bool" where
  "lexically_within root p =
     (isAbsolute p
      \<and> take (length (path_segments root)) (path_segments p) = path_segments root
      \<and> ''..'' \<notin> set (path_segments p))"

definition example_quote :: "string \<Rightarrow> string" where
  "example_quote s = [CHR 0x22] @ s @ [CHR 0x22]"

definition example_hydration :: hydration_scripts_props where
  "example_hydration =
     \<lparr>hs_hydrate = True, hs_route = ''/a</b'', hs_scriptPath = ''/public/hyperbun-client.js'',
      hs_serializedProps = Some (example_quote ''-->'')\<rparr>"

definition example_bootstrap :: string where
  "example_bootstrap =
     ''globalThis.__HYPERBUN_ROUTE__='' @ example_quote (''/a<'' @ [CHR 0x5C] @ ''/b'')
     @ '';globalThis.__HYPERBUN_PROPS__='' @ example_quote (''--'' @ [CHR 0x5C] @ ''>'') @ '';''"

text \<open>
  A page is hydratable when its component normalises and, if the page asks for hydration,
  the descriptor has a module reference.
\<close>

definition hydratable :: "string \<Rightarrow> string \<Rightarrow> 'c jsx_page \<Rightarrow> bool" where
  "hydratable dir baseDir page =
     (case normalizeComponentSpec dir (page_component page) baseDir of
        Inl e \<Rightarrow> False
      | Inr desc \<Rightarrow> \<not> (wantsHydration (page_hydrate page) \<and> nc_reference desc = None))"

definition normalises :: "string \<Rightarrow> string \<Rightarrow> 'c component_spec \<Rightarrow> bool" where
  "normalises dir baseDir spec =
     (case normalizeComponentSpec dir spec baseDir of Inl e \<Rightarrow> False | Inr desc \<Rightarrow> True)"

definition example_home_page :: "string jsx_page" where
  "example_home_page = \<lparr>page_component = SpecFunction ''Home'', page_hydrate = None\<rparr>"

definition example_static_page :: "string jsx_page" where
  "example_static_page =
     \<lparr>page_component = SpecFunction ''About'', page_hydrate = Some (HydrateBool False)\<rparr>"

definition example_jsx_input :: "(string, int) prepare_input" where
  "example_jsx_input =
     \<lparr>in_pages = [(''/'', example_home_page)],
      in_baseDir = ''/srv/app/src'', in_publicDir = ''/srv/app/public'',
      in_publicPrefix = ''/public'', in_clientFileName = ''hyperbun-client'',
      in_layout = None,
      in_notFoundPage = Some \<lparr>page_component = SpecFunction ''NotFound'',
                                 page_hydrate = Some (HydrateBool False)\<rparr>,
      in_static = None\<rparr>"

definition example_plain_input :: "(string, int) prepare_input" where
  "example_plain_input = example_jsx_input\<lparr>in_pages := [(''/about'', example_static_page)]\<rparr>"

definition example_home_descriptor :: "string normalized_component" where
  "example_home_descriptor = \<lparr>nc_component = Some ''Home'', nc_reference = None\<rparr>"

section \<open>Properties of headers and responses\<close>

lemma lower_char_idem: "lower_char (lower_char c) = lower_char c"
  by (simp add: lower_char_def lower_letters_def upper_letters_def)

lemma toLowerCase_idem: "toLowerCase (toLowerCase k) = toLowerCase k"
  by (simp add: toLowerCase_def lower_char_idem)

lemma content_type_lower: "toLowerCase ''content-type'' = ''content-type''"
  by (simp add: toLowerCase_def lower_char_def lower_letters_def upper_letters_def)

lemma content_type_mixed: "toLowerCase ''Content-Type'' = ''content-type''"
  by (simp add: toLowerCase_def lower_char_def lower_letters_def upper_letters_def)

lemma allow_lower: "toLowerCase ''Allow'' = ''allow''"
  by (simp add: toLowerCase_def lower_char_def lower_letters_def upper_letters_def)

lemma dropWhile_fixed: "xs = [] \<or> \<not> P (hd xs) \<Longrightarrow> dropWhile P xs = xs"
  by (cases xs) auto

lemma dropWhile_rev_append:
  "ys \<noteq> [] \<Longrightarrow> \<not> P (hd ys) \<Longrightarrow> dropWhile P (xs @ ys) = dropWhile P xs @ ys"
  by (induction xs) (auto simp: dropWhile_fixed)

lemma http_trim_fixed:
  assumes "s \<noteq> []" "\<not> http_whitespace (hd s)" "\<not> http_whitespace (last s)"
  shows "http_trim s = s"
proof -
  have a: "dropWhile http_whitespace s = s" using assms by (simp add: dropWhile_fixed)
  have "hd (rev s) = last s" using assms(1) by (simp add: hd_rev)
  then have b: "dropWhile http_whitespace (rev s) = rev s"
    using assms by (simp add: dropWhile_fixed)
  show ?thesis by (simp add: http_trim_def a b)
qed

lemma http_trim_empty: "http_trim [] = []"
  by (simp add: http_trim_def)

lemma http_trim_ends:
  "http_trim s = [] \<or> (\<not> http_whitespace (hd (http_trim s)) \<and> \<not> http_whitespace (last (http_trim s)))"
proof -
  define t where "t = dropWhile http_whitespace s"
  define u where "u = dropWhile http_whitespace (rev t)"
  have trim: "http_trim s = rev u" by (simp add: http_trim_def t_def u_def)
  have t: "t = [] \<or> \<not> http_whitespace (hd t)"
    unfolding t_def using hd_dropWhile [of http_whitespace s] by blast
  have u: "u = [] \<or> \<not> http_whitespace (hd u)"
    unfolding u_def using hd_dropWhile [of http_whitespace "rev t"] by blast
  show ?thesis
  proof (cases "u = []")
    case True
    then show ?thesis by (simp add: trim)
  next
    case False
    with u have l: "\<not> http_whitespace (last (rev u))" by (simp add: last_rev)
    have "rev t = takeWhile http_whitespace (rev t) @ u" by (simp add: u_def)
    then have "last (rev t) = last (takeWhile http_whitespace (rev t) @ u)" by simp
    also have "\<dots> = last u" using False by simp
    finally have lu: "last (rev t) = last u" .
    from False have tn: "t \<noteq> []" by (auto simp: u_def)
    then have "hd t = last u" using lu by (simp add: last_rev)
    with t tn have "\<not> http_whitespace (last u)" by auto
    with False have h: "\<not> http_whitespace (hd (rev u))" by (simp add: hd_rev)
    from l h show ?thesis by (simp add: trim)
  qed
qed

lemma http_trim_idem: "http_trim (http_trim s) = http_trim s"
proof (cases "http_trim s = []")
  case True
  then show ?thesis by (simp add: http_trim_empty)
next
  case False
  with http_trim_ends [of s] show ?thesis by (simp add: http_trim_fixed)
qed

lemma http_trim_prefix:
  assumes "x \<noteq> []" "\<not> http_whitespace (hd x)" "\<not> http_whitespace (last x)"
  shows "http_trim (x @ p) = x @ rev (dropWhile http_whitespace (rev p))"
proof -
  have a: "dropWhile http_whitespace (x @ p) = x @ p"
    using assms by (simp add: dropWhile_fixed)
  have "rev x \<noteq> []" "\<not> http_whitespace (hd (rev x))" using assms by (simp_all add: hd_rev)
  then have "dropWhile http_whitespace (rev p @ rev x) = dropWhile http_whitespace (rev p) @ rev x"
    by (rule dropWhile_rev_append)
  then show ?thesis by (simp add: http_trim_def a)
qed

lemma values_of_Nil: "values_of [] n = []"
  by (simp add: values_of_def)

lemma values_of_append: "values_of (hs @ hs') n = values_of hs n @ values_of hs' n"
  by (simp add: values_of_def)

lemma values_of_single: "values_of [(m, v)] n = (if m = n then [v] else [])"
  by (simp add: values_of_def)

lemma values_of_names: "(values_of hs n \<noteq> []) = (n \<in> fst ` set hs)"
  by (induction hs) (auto simp: values_of_def)

lemma values_of_foldl_append:
  "values_of (foldl (\<lambda>hs (k, v). h_append hs k v) hs init) n =
     values_of hs n @
     map (\<lambda>(k, v). http_trim v) (filter (\<lambda>(k, v). toLowerCase k = n) init)"
  by (induction init arbitrary: hs)
    (auto simp: h_append_def values_of_append values_of_single)

lemma values_of_Headers_new:
  "values_of (Headers_new init) (toLowerCase k) = init_values init k"
  by (simp add: Headers_new_def values_of_foldl_append values_of_Nil init_values_def)

lemma lower_keys_foldl:
  "lower_keys hs \<Longrightarrow> lower_keys (foldl (\<lambda>hs (k, v). h_append hs k v) hs init)"
  by (induction init arbitrary: hs)
    (auto simp: h_append_def lower_keys_def toLowerCase_idem)

lemma lower_keys_Headers_new: "lower_keys (Headers_new init)"
  unfolding Headers_new_def by (rule lower_keys_foldl) (simp add: lower_keys_def)

lemma trimmed_Headers_new:
  "v \<in> set (values_of (Headers_new init) n) \<Longrightarrow> http_trim v = v"
  by (auto simp: Headers_new_def values_of_foldl_append values_of_Nil http_trim_idem)

text \<open>The entries that iteration gives for one name.\<close>

lemma filter_concat_one:
  assumes "distinct ns" and "\<And>m e. e \<in> set (g m) \<Longrightarrow> fst e = m"
  shows "filter (\<lambda>e. fst e = n) (concat (map g ns)) = (if n \<in> set ns then g n else [])"
  using assms(1)
proof (induction ns)
  case Nil
  then show ?case by simp
next
  case (Cons m ns)
  have here: "filter (\<lambda>e. fst e = n) (g m) = (if m = n then g m else [])"
    using assms(2) [of _ m] by (auto simp: filter_empty_conv filter_id_conv)
  from Cons show ?case by (auto simp: here)
qed

lemma combined_None: "(combined hs n = None) = (values_of hs n = [])"
  by (simp add: combined_def split: list.splits)

lemma h_entries_name:
  "filter (\<lambda>e. fst e = n) (h_entries hs) =
     (if n = ''set-cookie'' then map (Pair n) (values_of hs n)
      else (case combined hs n of None \<Rightarrow> [] | Some v \<Rightarrow> [(n, v)]))"
proof -
  let ?g = "\<lambda>n. if n = ''set-cookie'' then map (Pair n) (values_of hs n)
                 else (case combined hs n of None \<Rightarrow> [] | Some v \<Rightarrow> [(n, v)])"
  have d: "distinct (sort (remdups (map fst hs)))" by simp
  have g: "\<And>m e. e \<in> set (?g m) \<Longrightarrow> fst e = m"
    by (auto split: option.splits if_splits)
  have s: "set (sort (remdups (map fst hs))) = fst ` set hs" by simp
  have out: "n \<notin> fst ` set hs \<Longrightarrow> ?g n = []"
    using values_of_names [of hs n] by (auto simp: combined_def)
  have "filter (\<lambda>e. fst e = n) (concat (map ?g (sort (remdups (map fst hs))))) =
      (if n \<in> set (sort (remdups (map fst hs))) then ?g n else [])"
    using d g by (rule filter_concat_one)
  then show ?thesis
    unfolding h_entries_def s using out by (simp split: if_splits)
qed

lemma h_entries_keys:
  assumes "e \<in> set (h_entries hs)"
  shows "fst e \<in> fst ` set hs"
proof -
  let ?g = "\<lambda>n. if n = ''set-cookie'' then map (Pair n) (values_of hs n)
                 else (case combined hs n of None \<Rightarrow> [] | Some v \<Rightarrow> [(n, v)])"
  from assms have "e \<in> \<Union> (set ` ?g ` set (sort (remdups (map fst hs))))"
    unfolding h_entries_def by (simp only: set_concat set_map)
  then obtain n where n: "n \<in> set (sort (remdups (map fst hs)))" and e: "e \<in> set (?g n)"
    by blast
  from e have "fst e = n" by (cases "n = ''set-cookie''") (auto split: option.splits)
  with n show ?thesis by simp
qed


lemma merge_values:
  "list_all (\<lambda>(k, v). toLowerCase k = k) es \<Longrightarrow>
   values_of (foldl (\<lambda>hs (key, value). if \<not> h_has hs key then h_set hs key value else hs) hs es) n =
     (if values_of hs n \<noteq> [] then values_of hs n
      else (case filter (\<lambda>e. fst e = n) es of [] \<Rightarrow> [] | e # rest \<Rightarrow> [http_trim (snd e)]))"
proof (induction es arbitrary: hs)
  case Nil
  then show ?case by simp
next
  case (Cons e es)
  obtain key val where e: "e = (key, val)" by (cases e)
  from Cons.prems have lk: "toLowerCase key = key" and rest: "list_all (\<lambda>(k, v). toLowerCase k = k) es"
    by (simp_all add: e)
  note IH = Cons.IH [OF rest]
  show ?case
  proof (cases "h_has hs key")
    case True
    then have "values_of hs key \<noteq> []" by (simp add: h_has_def lk)
    with True show ?thesis by (auto simp: e IH)
  next
    case False
    then have none: "values_of hs key = []" by (simp add: h_has_def lk)
    have set: "h_set hs key val = hs @ [(key, http_trim val)]"
      using False by (simp add: h_set_def lk)
    show ?thesis
      using False none
      by (auto simp: e IH set values_of_append values_of_single split: list.splits)
  qed
qed

lemma lower_entries: "lower_keys hs \<Longrightarrow> list_all (\<lambda>(k, v). toLowerCase k = k) (h_entries hs)"
proof -
  assume l: "lower_keys hs"
  have "\<And>e. e \<in> set (h_entries hs) \<Longrightarrow> toLowerCase (fst e) = fst e"
  proof -
    fix e assume "e \<in> set (h_entries hs)"
    then have "fst e \<in> fst ` set hs" by (rule h_entries_keys)
    with l show "toLowerCase (fst e) = fst e" by (auto simp: lower_keys_def list_all_iff)
  qed
  then show ?thesis by (auto simp: list_all_iff)
qed

lemma values_of_applyBaseHeaders:
  "values_of (headers (applyBaseHeaders r base)) (toLowerCase k) =
     (if h_has (headers r) k then values_of (headers r) (toLowerCase k)
      else (case base_value base k of None \<Rightarrow> [] | Some v \<Rightarrow> [v]))"
proof (cases base)
  case None
  then show ?thesis by (simp add: applyBaseHeaders_def base_value_def h_has_def)
next
  case (Some init)
  define n where "n = toLowerCase k"
  define H where "H = Headers_new init"
  have fold: "toLowerCase k = n" by (simp add: n_def)
  have vals: "values_of H n = init_values init k"
    unfolding n_def H_def by (rule values_of_Headers_new)
  have m: "values_of (headers (applyBaseHeaders r (Some init))) n =
      (if values_of (headers r) n \<noteq> [] then values_of (headers r) n
       else (case filter (\<lambda>e. fst e = n) (h_entries H) of
               [] \<Rightarrow> [] | e # rest \<Rightarrow> [http_trim (snd e)]))"
    unfolding H_def
    using merge_values [OF lower_entries [OF lower_keys_Headers_new [of init]],
        where hs = "headers r" and n = n]
    by (simp add: applyBaseHeaders_def)
  have ent: "filter (\<lambda>e. fst e = n) (h_entries H) =
      (if n = ''set-cookie'' then map (Pair n) (init_values init k)
       else (case init_values init k of [] \<Rightarrow> [] | v # vs \<Rightarrow> [(n, join '', '' (v # vs))]))"
    unfolding h_entries_name combined_def vals by (simp split: list.splits)
  show ?thesis
  proof (cases "init_values init k")
    case Nil
    then show ?thesis
      by (simp add: Some fold m ent base_value_def h_has_def)
  next
    case (Cons v vs)
    have "v \<in> set (values_of H n)" using vals Cons by simp
    then have tv: "http_trim v = v" unfolding H_def by (rule trimmed_Headers_new)
    show ?thesis
      using Cons tv
      by (simp add: Some fold m ent base_value_def h_has_def)
  qed
qed

lemma join_single: "join sep [x] = x"
  by simp

lemma h_get_applyBaseHeaders:
  "h_get (headers (applyBaseHeaders r base)) k =
     (case h_get (headers r) k of Some v \<Rightarrow> Some v | None \<Rightarrow> base_value base k)"
proof (cases "h_has (headers r) k")
  case True
  then show ?thesis
    using values_of_applyBaseHeaders [of r base k]
    by (simp add: h_get_def combined_def h_has_def split: list.splits)
next
  case False
  then show ?thesis
    using values_of_applyBaseHeaders [of r base k]
    by (simp add: h_get_def combined_def h_has_def split: list.splits option.splits)
qed


lemma status_applyBaseHeaders: "status (applyBaseHeaders r base) = status r"
  by (simp add: applyBaseHeaders_def split: option.splits)

lemma body_applyBaseHeaders: "body (applyBaseHeaders r base) = body r"
  by (simp add: applyBaseHeaders_def split: option.splits)


lemma applyBaseHeaders_None: "applyBaseHeaders r None = r"
  by (simp add: applyBaseHeaders_def)




lemma h_get_Response_new_empty:
  "h_get (headers (Response_new rt b st [])) k = constructed_value rt b k"
  by (simp add: Response_new_def Headers_new_def h_has_def h_get_def h_append_def
      values_of_def combined_def constructed_value_def content_type_lower
      split: option.splits)

lemma status_Response_new: "status (Response_new rt b st init) = st"
  by (simp add: Response_new_def Let_def)

lemma body_Response_new: "body (Response_new rt b st init) = b"
  by (simp add: Response_new_def Let_def)

lemma json_type_trimmed:
  "http_trim (''application/json'' @ p) = ''application/json'' @ rev (dropWhile http_whitespace (rev p))"
  by (rule http_trim_prefix) (simp_all add: http_whitespace_def)

lemma normaliseResponse_raises:
  "(\<exists>e. normaliseResponse rt v base = Inl e) =
     (\<exists>obj e. v = RObject obj \<and> JSON_stringify rt obj = Inl e)"
  by (cases v)
    (auto simp: normaliseResponse_def is_nullish_def typeof_def isBinaryLike_def is_object_def
      Response_json_def split: sum.splits binary_like.splits)

text \<open>
  C2, as the code has it. Normalisation is a function of the handler's result, one
  equation per variant. A pre-built response has the base headers merged (and is
  unchanged when there are none); \<open>null\<close> and \<open>undefined\<close> give a response with status 204
  and no body; a string is the text body; a number, a boolean or a bigint is the text body
  of its \<open>String\<close> form; a binary-like value is the body. These responses come from the
  \<open>Response\<close> constructor with no headers given: their status is 200 (or 204) and the
  normaliser names no content type; the header is the one the constructor of the runtime
  gives the body, else the one of the base headers. Any other object is handed to
  \<open>Response.json\<close>: when the serialiser raises, normalisation raises the same error; else
  the body is the JSON text and the content type starts with \<open>application/json\<close>,
  whatever the base headers say. Normalisation raises in no other case.
\<close>

theorem normaliseResponse_variants:
  "normaliseResponse rt (RResponse r) base = Inr (applyBaseHeaders r base)
   \<and> normaliseResponse rt (RResponse r) None = Inr r
   \<and> normaliseResponse rt RNull base =
       Inr (applyBaseHeaders (Response_new rt NoBody 204 []) base)
   \<and> normaliseResponse rt RUndefined base =
       Inr (applyBaseHeaders (Response_new rt NoBody 204 []) base)
   \<and> normaliseResponse rt (RString s) base =
       Inr (applyBaseHeaders (Response_new rt (TextBody s) 200 []) base)
   \<and> normaliseResponse rt (RNumber n) base =
       Inr (applyBaseHeaders (Response_new rt (TextBody (String_number rt n)) 200 []) base)
   \<and> normaliseResponse rt (RBoolean True) base =
       Inr (applyBaseHeaders (Response_new rt (TextBody ''true'') 200 []) base)
   \<and> normaliseResponse rt (RBoolean False) base =
       Inr (applyBaseHeaders (Response_new rt (TextBody ''false'') 200 []) base)
   \<and> normaliseResponse rt (RBigint i) base =
       Inr (applyBaseHeaders (Response_new rt (TextBody (String_int i)) 200 []) base)
   \<and> normaliseResponse rt (RBinary bin) base =
       Inr (applyBaseHeaders (Response_new rt (BinaryBody bin) 200 []) base)
   \<and> normaliseResponse rt (RObject obj) base =
       (case JSON_stringify rt obj of
          Inl e \<Rightarrow> Inl e
        | Inr text \<Rightarrow>
            Inr (applyBaseHeaders
                   \<lparr>status = 200,
                    headers = [(''content-type'',
                                http_trim (''application/json'' @ json_type_params rt))],
                    body = TextBody text\<rparr> base))
   \<and> status (applyBaseHeaders (Response_new rt b st []) base) = st
   \<and> body (applyBaseHeaders (Response_new rt b st []) base) = b
   \<and> h_get (headers (applyBaseHeaders (Response_new rt b st []) base)) k =
       (case constructed_value rt b k of Some v \<Rightarrow> Some v | None \<Rightarrow> base_value base k)
   \<and> h_get (headers (applyBaseHeaders
          \<lparr>status = 200,
           headers = [(''content-type'', http_trim (''application/json'' @ json_type_params rt))],
           body = TextBody text\<rparr> base)) ''Content-Type''
       = Some (http_trim (''application/json'' @ json_type_params rt))
   \<and> startsWith (http_trim (''application/json'' @ json_type_params rt)) ''application/json''
   \<and> ((\<exists>e. normaliseResponse rt v base = Inl e) =
        (\<exists>payload e. v = RObject payload \<and> JSON_stringify rt payload = Inl e))"
proof -
  have eqs: "normaliseResponse rt (RResponse r) base = Inr (applyBaseHeaders r base)"
    "normaliseResponse rt (RResponse r) None = Inr r"
    "normaliseResponse rt RNull base =
       Inr (applyBaseHeaders (Response_new rt NoBody 204 []) base)"
    "normaliseResponse rt RUndefined base =
       Inr (applyBaseHeaders (Response_new rt NoBody 204 []) base)"
    "normaliseResponse rt (RString s) base =
       Inr (applyBaseHeaders (Response_new rt (TextBody s) 200 []) base)"
    "normaliseResponse rt (RNumber n) base =
       Inr (applyBaseHeaders (Response_new rt (TextBody (String_number rt n)) 200 []) base)"
    "normaliseResponse rt (RBoolean True) base =
       Inr (applyBaseHeaders (Response_new rt (TextBody ''true'') 200 []) base)"
    "normaliseResponse rt (RBoolean False) base =
       Inr (applyBaseHeaders (Response_new rt (TextBody ''false'') 200 []) base)"
    "normaliseResponse rt (RBigint i) base =
       Inr (applyBaseHeaders (Response_new rt (TextBody (String_int i)) 200 []) base)"
    by (simp_all add: normaliseResponse_def is_nullish_def typeof_def isBinaryLike_def
        as_body_def String_value_def String_boolean_def applyBaseHeaders_None)
  have bin: "normaliseResponse rt (RBinary bin) base =
       Inr (applyBaseHeaders (Response_new rt (BinaryBody bin) 200 []) base)"
    by (cases bin)
      (simp_all add: normaliseResponse_def is_nullish_def typeof_def isBinaryLike_def as_body_def)
  have obj: "normaliseResponse rt (RObject obj) base =
       (case JSON_stringify rt obj of
          Inl e \<Rightarrow> Inl e
        | Inr text \<Rightarrow>
            Inr (applyBaseHeaders
                   \<lparr>status = 200,
                    headers = [(''content-type'',
                                http_trim (''application/json'' @ json_type_params rt))],
                    body = TextBody text\<rparr> base))"
    by (simp add: normaliseResponse_def is_nullish_def typeof_def isBinaryLike_def is_object_def
        Response_json_def h_append_def content_type_lower split: sum.splits)
  have props: "status (applyBaseHeaders (Response_new rt b st []) base) = st"
    "body (applyBaseHeaders (Response_new rt b st []) base) = b"
    "h_get (headers (applyBaseHeaders (Response_new rt b st []) base)) k =
       (case constructed_value rt b k of Some v \<Rightarrow> Some v | None \<Rightarrow> base_value base k)"
    by (simp_all add: status_applyBaseHeaders status_Response_new body_applyBaseHeaders
        body_Response_new h_get_applyBaseHeaders h_get_Response_new_empty)
  have js: "h_get (headers (applyBaseHeaders
          \<lparr>status = 200,
           headers = [(''content-type'', http_trim (''application/json'' @ json_type_params rt))],
           body = TextBody text\<rparr> base)) ''Content-Type''
       = Some (http_trim (''application/json'' @ json_type_params rt))"
  proof -
    have own: "h_get (headers
          \<lparr>status = 200,
           headers = [(''content-type'', http_trim (''application/json'' @ json_type_params rt))],
           body = TextBody text\<rparr>) ''Content-Type''
       = Some (http_trim (''application/json'' @ json_type_params rt))"
      by (simp add: h_get_def combined_def values_of_def content_type_mixed)
    show ?thesis
      unfolding h_get_applyBaseHeaders own by simp
  qed
  have st: "startsWith (http_trim (''application/json'' @ json_type_params rt)) ''application/json''"
    unfolding json_type_trimmed by (simp add: startsWith_def)
  from eqs bin obj props js st normaliseResponse_raises [of rt v base] show ?thesis
    by (simp only: simp_thms)
qed

text \<open>
  C2 as stated fails: normalisation is not total. An object that the serialiser of the
  runtime refuses, such as a cyclic one, makes it raise.
\<close>

theorem cyclic_object_not_normalised:
  "normaliseResponse example_runtime (RObject Cyclic) None =
     Inl (TypeError ''JSON.stringify cannot serialize cyclic structures.'')"
  by code_simp

theorem normaliseResponse_variants_witness:
  "JSON_stringify example_runtime (Plain ''{}'') = Inr ''{}''
   \<and> normaliseResponse example_runtime (RObject (Plain ''{}'')) None =
       Inr \<lparr>status = 200, headers = [(''content-type'', ''application/json;charset=utf-8'')],
            body = TextBody ''{}''\<rparr>
   \<and> normaliseResponse example_runtime (RString ''hi'') None =
       Inr \<lparr>status = 200, headers = [], body = TextBody ''hi''\<rparr>
   \<and> normaliseResponse standard_runtime (RString ''hi'') None =
       Inr \<lparr>status = 200, headers = [(''content-type'', ''text/plain;charset=UTF-8'')],
            body = TextBody ''hi''\<rparr>
   \<and> normaliseResponse example_runtime RNull (Some example_powered) =
       Inr \<lparr>status = 204,
            headers = [(''content-type'', ''text/plain''), (''x-powered-by'', ''hyperbun'')],
            body = NoBody\<rparr>
   \<and> (\<exists>e. normaliseResponse example_runtime (RObject Cyclic) None = Inl e)"
proof -
  have j: "JSON_stringify example_runtime (Plain ''{}'') = Inr ''{}''"
    "json_type_params example_runtime = '';charset=utf-8''"
    "JSON_stringify example_runtime Cyclic =
       Inl (TypeError ''JSON.stringify cannot serialize cyclic structures.'')"
    by (simp_all add: example_runtime_def example_stringify_def)
  have t: "http_trim ''application/json;charset=utf-8'' = ''application/json;charset=utf-8''"
    by code_simp
  have r: "Response_new example_runtime (TextBody ''hi'') 200 [] =
       \<lparr>status = 200, headers = [], body = TextBody ''hi''\<rparr>"
    "Response_new standard_runtime (TextBody ''hi'') 200 [] =
       \<lparr>status = 200, headers = [(''content-type'', ''text/plain;charset=UTF-8'')],
        body = TextBody ''hi''\<rparr>"
    by code_simp+
  have n: "applyBaseHeaders (Response_new example_runtime NoBody 204 []) (Some example_powered) =
       \<lparr>status = 204,
        headers = [(''content-type'', ''text/plain''), (''x-powered-by'', ''hyperbun'')],
        body = NoBody\<rparr>"
    by code_simp
  from
    normaliseResponse_variants [of example_runtime example_page None "''hi''" 0 0
      "ArrayBuffer []" "Plain ''{}''" NoBody 204 "''Content-Type''" "''{}''" "RObject Cyclic"]
    normaliseResponse_variants [of standard_runtime example_page None "''hi''" 0 0
      "ArrayBuffer []" "Plain ''{}''" NoBody 204 "''Content-Type''" "''{}''" "RObject Cyclic"]
    normaliseResponse_variants [of example_runtime example_page "Some example_powered" "''hi''" 0 0
      "ArrayBuffer []" "Plain ''{}''" NoBody 204 "''Content-Type''" "''{}''" "RObject Cyclic"]
    j t r n
  show ?thesis by (simp add: applyBaseHeaders_None)
qed

section \<open>Properties of the error boundary\<close>

lemma executeHandler_boundary:
  assumes "handler (createContext request locals) = Inl e"
  shows "executeHandler rt handler request locals base onError =
     (case onError of
        None \<Rightarrow> applyBaseHeaders (Response_new rt (TextBody ''Internal Server Error'') 500 []) base
      | Some hook \<Rightarrow>
          (case hook e (createContext request locals) of
             Inr (Some r) \<Rightarrow> applyBaseHeaders r base
           | Inr None \<Rightarrow>
               applyBaseHeaders (Response_new rt (TextBody ''Internal Server Error'') 500 []) base
           | Inl secondary \<Rightarrow>
               applyBaseHeaders (Response_new rt (TextBody ''Internal Server Error'') 500 []) base))"
  using assms
  by (simp add: executeHandler_def handleError_def split: option.splits sum.splits)

lemma executeHandler_normalise_boundary:
  assumes "handler (createContext request locals) = Inr result"
    and "normaliseResponse rt result base = Inl e"
  shows "executeHandler rt handler request locals base onError =
     (case onError of
        None \<Rightarrow> applyBaseHeaders (Response_new rt (TextBody ''Internal Server Error'') 500 []) base
      | Some hook \<Rightarrow>
          (case hook e (createContext request locals) of
             Inr (Some r) \<Rightarrow> applyBaseHeaders r base
           | Inr None \<Rightarrow>
               applyBaseHeaders (Response_new rt (TextBody ''Internal Server Error'') 500 []) base
           | Inl secondary \<Rightarrow>
               applyBaseHeaders (Response_new rt (TextBody ''Internal Server Error'') 500 []) base))"
  using assms
  by (simp add: executeHandler_def handleError_def split: option.splits sum.splits)

lemma fetchHandler_notFound_boundary:
  assumes "try_static staticHandlers request base = Inr None"
    and "h (createContext request localsFactory) = Inl e"
  shows "fetchHandler rt staticHandlers (Some (NFHandler h)) onError base request =
     Inr (case onError of
        None \<Rightarrow> applyBaseHeaders (Response_new rt (TextBody ''Internal Server Error'') 500 []) base
      | Some hook \<Rightarrow>
          (case hook e (createContext request localsFactory) of
             Inr (Some r) \<Rightarrow> applyBaseHeaders r base
           | Inr None \<Rightarrow>
               applyBaseHeaders (Response_new rt (TextBody ''Internal Server Error'') 500 []) base
           | Inl secondary \<Rightarrow>
               applyBaseHeaders (Response_new rt (TextBody ''Internal Server Error'') 500 []) base))"
  using assms
  by (simp add: fetchHandler_def resolveEntry_def handleError_def
      split: option.splits sum.splits)

lemma fetchHandler_static_raises:
  "try_static staticHandlers request base = Inl e \<Longrightarrow>
   fetchHandler rt staticHandlers notFound onError base request = Inl e"
  by (simp add: fetchHandler_def)

lemma createStaticHandler_raises:
  assumes "req_method request = ''GET''"
    and "cfg_prefix config = None"
    and "length (req_pathname request) > 1"
    and "decodeURIComponent rt (drop 1 (req_pathname request)) = Inl e"
  shows "createStaticHandler rt config request base = Inl e"
  using assms
  by (simp add: createStaticHandler_def sanitisePrefix_def startsWith_def endsWith_def Let_def)

text \<open>
  C5. The error boundary is around the handler of a route and around the not-found
  handler: when one of them throws and the error hook returns a response, that response,
  with the base headers merged, is the answer (its status 555 stays 555). It is not
  around the static handlers: a \<open>GET\<close> request whose path holds a malformed escape makes
  the static handler raise the \<open>URIError\<close> of \<open>decodeURIComponent\<close>, and the request
  handling raises it in turn; the error hook is not called and no response is made.
\<close>

theorem static_handler_error_escapes_boundary:
  "handle_request example_runtime example_hook_options example_boom_get =
     Inr \<lparr>status = 555, headers = [(''x-powered-by'', ''hyperbun'')], body = TextBody ''handled''\<rparr>
   \<and> handle_request example_runtime example_hook_options example_missing_get =
     Inr \<lparr>status = 555, headers = [(''x-powered-by'', ''hyperbun'')], body = TextBody ''handled''\<rparr>
   \<and> handle_request example_runtime example_hook_options example_malformed_get =
     Inl (URIError ''URI error'')"
proof -
  have a: "handle_request example_runtime example_hook_options example_boom_get =
     Inr \<lparr>status = 555, headers = [(''x-powered-by'', ''hyperbun'')], body = TextBody ''handled''\<rparr>"
    by code_simp
  have b: "handle_request example_runtime example_hook_options example_missing_get =
     Inr \<lparr>status = 555, headers = [(''x-powered-by'', ''hyperbun'')], body = TextBody ''handled''\<rparr>"
    by code_simp
  have c: "handle_request example_runtime example_hook_options example_malformed_get =
     Inl (URIError ''URI error'')"
    by code_simp
  from a b c show ?thesis by simp
qed

section \<open>Properties of method tables and routes\<close>

lemma map_of_map_set: "map_of (map_set k v hs) k' = (if k' = k then Some v else map_of hs k')"
  by (induction hs) auto

lemma entry_for_Cons:
  "entry_for rt ((k, v) # es) M =
     (case entry_for rt es M of
        Some w \<Rightarrow> Some w
      | None \<Rightarrow> if is_defined v \<and> toUpperCase rt k = M then Some v else None)"
  by (auto simp: entry_for_def upper_entries_def map_add_def split: option.splits)

lemma entry_for_append:
  "entry_for rt (xs @ ys) M =
     (case entry_for rt ys M of Some w \<Rightarrow> Some w | None \<Rightarrow> entry_for rt xs M)"
  by (auto simp: entry_for_def upper_entries_def map_add_def split: option.splits)

lemma entry_for_defined: "entry_for rt es M = Some v \<Longrightarrow> is_defined v"
  by (auto simp: entry_for_def dest!: map_of_SomeD)

lemma entry_for_None: "(entry_for rt es M = None) = (\<not> has_value_for rt es M)"
proof (induction es)
  case Nil
  then show ?case by (simp add: entry_for_def upper_entries_def has_value_for_def)
next
  case (Cons e es)
  obtain k v where e: "e = (k, v)" by (cases e)
  have h: "has_value_for rt ((k, v) # es) M =
      ((is_defined v \<and> toUpperCase rt k = M) \<or> has_value_for rt es M)"
    by (simp add: has_value_for_def)
  from Cons show ?case
    by (auto simp: e h entry_for_Cons split: option.splits)
qed

lemma declared_verbs_Cons:
  "declared_verbs rt ((k, v) # es) =
     (if is_defined v \<and> toUpperCase rt k \<noteq> ''ALL''
      then toUpperCase rt k # filter (\<lambda>y. y \<noteq> toUpperCase rt k) (declared_verbs rt es)
      else declared_verbs rt es)"
  by (simp add: declared_verbs_def upper_entries_def)

lemma set_nub: "set (nub xs) = set xs"
  by (induction xs) auto

lemma distinct_nub: "distinct (nub xs)"
  by (induction xs) (auto simp: set_nub)

lemma set_declared_verbs:
  "set (declared_verbs rt es) = {V. V \<noteq> ''ALL'' \<and> has_value_for rt es V}"
proof (induction es)
  case Nil
  then show ?case by (simp add: declared_verbs_def upper_entries_def has_value_for_def)
next
  case (Cons e es)
  obtain k v where e: "e = (k, v)" by (cases e)
  have h: "\<And>V. has_value_for rt ((k, v) # es) V =
      ((is_defined v \<and> toUpperCase rt k = V) \<or> has_value_for rt es V)"
    by (simp add: has_value_for_def)
  from Cons show ?case
    by (auto simp: e h declared_verbs_Cons)
qed

lemma ALL_not_method: "''ALL'' \<notin> set METHODS"
  by (simp add: METHODS_def)

lemma filter_drop_member:
  "K \<in> A \<Longrightarrow> filter (\<lambda>x. x \<noteq> K \<and> x \<notin> A) xs = filter (\<lambda>x. x \<notin> A) xs"
  by (induction xs) auto

lemma filter_neq_commute:
  "filter (\<lambda>x. x \<notin> A \<and> x \<noteq> K) xs = filter (\<lambda>x. x \<noteq> K \<and> x \<notin> A) xs"
  by (induction xs) auto

lemma normalise_keys_ok:
  "normalise_keys rt entries t = Inr t' \<Longrightarrow>
     map_of (methods t') M =
       (case entry_for rt entries M of Some v \<Rightarrow> Some v | None \<Rightarrow> map_of (methods t) M)
     \<and> allowed t' = allowed t @ filter (\<lambda>x. x \<notin> set (allowed t)) (declared_verbs rt entries)"
proof (induction entries arbitrary: t)
  case Nil
  then show ?case by (simp add: entry_for_def declared_verbs_def upper_entries_def)
next
  case (Cons e es)
  obtain k v where e: "e = (k, v)" by (cases e)
  show ?case
  proof (cases "is_defined v")
    case False
    then have v: "v = VUndefined" by (cases v) (simp_all add: is_defined_def)
    from Cons.prems have "normalise_keys rt es t = Inr t'"
      by (simp add: e v Let_def split: if_splits)
    from Cons.IH [OF this] False show ?thesis
      by (simp add: e entry_for_Cons declared_verbs_Cons split: option.splits)
  next
    case True
    show ?thesis
    proof (cases "toUpperCase rt k = ''ALL''")
      case all: True
      from Cons.prems True have
        "normalise_keys rt es (t\<lparr>methods := map_set ''ALL'' v (methods t)\<rparr>) = Inr t'"
        by (cases v) (simp_all add: e all is_defined_def)
      from Cons.IH [OF this] True all show ?thesis
        by (auto simp: e entry_for_Cons declared_verbs_Cons map_of_map_set split: option.splits)
    next
      case notall: False
      from Cons.prems True notall have mem: "toUpperCase rt k \<in> set METHODS"
        and rec: "normalise_keys rt es
           (t\<lparr>methods := map_set (toUpperCase rt k) v (methods t),
              allowed := set_add (toUpperCase rt k) (allowed t)\<rparr>) = Inr t'"
        by (cases v; simp add: e is_defined_def Let_def split: if_splits)+
      from Cons.IH [OF rec] True notall show ?thesis
        by (auto simp: e entry_for_Cons declared_verbs_Cons map_of_map_set set_add_def
            filter_drop_member filter_neq_commute split: option.splits)
    qed
  qed
qed

lemma normaliseMethodTable_ok:
  assumes "normaliseMethodTable rt entries = Inr table"
  shows "map_of (methods table) M = entry_for rt entries M"
    and "allowed table = declared_verbs rt entries"
  using normalise_keys_ok [OF assms [unfolded normaliseMethodTable_def], of M]
  by (simp_all split: option.splits)

lemma normalise_keys_success:
  "list_all (\<lambda>(k, v). accepted_key rt k) es \<Longrightarrow> \<exists>t'. normalise_keys rt es t = Inr t'"
proof (induction es arbitrary: t)
  case Nil
  then show ?case by simp
next
  case (Cons e es)
  obtain k v where e: "e = (k, v)" by (cases e)
  from Cons.prems have
    rest: "list_all (\<lambda>(k, v). accepted_key rt k) es"
    and here: "toUpperCase rt k = ''ALL'' \<or> toUpperCase rt k \<in> set METHODS"
    by (simp_all add: e accepted_key_def)
  show ?case
    using Cons.IH [OF rest] here
    by (cases v) (auto simp: e Let_def)
qed


lemma normalise_keys_allowed:
  "normalise_keys rt es t = Inr t' \<Longrightarrow> set (allowed t') \<subseteq> set (allowed t) \<union> set METHODS"
proof (induction es arbitrary: t)
  case Nil
  then show ?case by auto
next
  case (Cons e es)
  obtain k v where e: "e = (k, v)" by (cases e)
  from Cons.prems Cons.IH show ?case
    by (cases v) (fastforce simp: e Let_def set_add_def split: if_splits)+
qed

lemma declared_verbs_methods:
  assumes "normaliseMethodTable rt entries = Inr table"
  shows "set (declared_verbs rt entries) \<subseteq> set METHODS"
  using normalise_keys_allowed [OF assms [unfolded normaliseMethodTable_def]]
    normaliseMethodTable_ok(2) [OF assms]
  by simp

lemma join_nonempty: "x \<noteq> [] \<Longrightarrow> join sep (x # xs) \<noteq> []"
  by (cases xs) simp_all

lemma hd_join: "x \<noteq> [] \<Longrightarrow> hd (join sep (x # xs)) = hd x"
  by (cases xs) simp_all

lemma last_join:
  "xs \<noteq> [] \<Longrightarrow> \<forall>x \<in> set xs. x \<noteq> [] \<Longrightarrow> last (join sep xs) = last (last xs)"
proof (induction sep xs rule: join.induct)
  case (1 sep)
  then show ?case by simp
next
  case (2 sep x)
  then show ?case by simp
next
  case (3 sep x y ys)
  then have "join sep (y # ys) \<noteq> []" by (simp add: join_nonempty)
  with 3 show ?case by simp
qed

lemma method_ends:
  "x \<in> set METHODS \<Longrightarrow> x \<noteq> [] \<and> \<not> http_whitespace (hd x) \<and> \<not> http_whitespace (last x)"
  by (auto simp: METHODS_def http_whitespace_def)

lemma join_verbs_nonempty:
  assumes "set vs \<subseteq> set METHODS" "vs \<noteq> []"
  shows "join sep vs \<noteq> []"
proof -
  from assms obtain x xs where vs: "vs = x # xs" by (cases vs) auto
  with assms have "x \<in> set METHODS" by simp
  then have "x \<noteq> []" by (auto simp: METHODS_def)
  then show ?thesis by (simp add: vs join_nonempty)
qed

lemma join_verbs_trimmed:
  assumes "set vs \<subseteq> set METHODS" "vs \<noteq> []"
  shows "http_trim (join sep vs) = join sep vs"
proof (rule http_trim_fixed)
  from assms obtain x xs where vs: "vs = x # xs" by (cases vs) auto
  with assms(1) have x: "x \<in> set METHODS" by simp
  note xe = method_ends [OF x]
  show "join sep vs \<noteq> []" using assms by (rule join_verbs_nonempty)
  show "\<not> http_whitespace (hd (join sep vs))" using xe by (simp add: vs hd_join)
  have ne: "\<forall>y \<in> set vs. y \<noteq> []" using assms(1) method_ends by blast
  have "last vs \<in> set METHODS" using assms by auto
  then have "\<not> http_whitespace (last (last vs))" using method_ends by blast
  then show "\<not> http_whitespace (last (join sep vs))"
    using last_join [OF assms(2) ne] by simp
qed

lemma h_get_method_not_allowed:
  "h_get (headers (Response_new rt (TextBody b) st [(''Allow'', a)])) ''Allow'' = Some (http_trim a)"
  by (simp add: Response_new_def Headers_new_def h_append_def h_get_def h_has_def
      values_of_def combined_def allow_lower content_type_lower Let_def split: option.splits)

lemma h_get_no_allow:
  "h_get (headers (Response_new rt (TextBody b) st [])) ''Allow'' = None"
  by (simp add: h_get_Response_new_empty constructed_value_def allow_lower split: option.splits)

lemma entry_for_not_undefined: "entry_for rt es M \<noteq> Some VUndefined"
  using entry_for_defined [of rt es M VUndefined] by (auto simp: is_defined_def)

lemma selected_entry_ok:
  assumes "normaliseMethodTable rt entries = Inr table"
  shows "selected_entry rt table request =
      (case entry_for rt entries (toUpperCase rt (req_method request)) of
         Some v \<Rightarrow> Some v | None \<Rightarrow> entry_for rt entries ''ALL'')"
  by (simp add: selected_entry_def normaliseMethodTable_ok(1) [OF assms] split: option.splits)

lemma createRouteHandler_table:
  assumes "createRouteHandler rt (ETable entries) pattern base onError = Inr h"
  shows "\<exists>table. normaliseMethodTable rt entries = Inr table
     \<and> h = table_handler rt table (join '', '' (allowed table)) base onError"
  using assms by (auto simp: createRouteHandler_def split: sum.splits)

text \<open>The answer of a method table to a request it has no entry for.\<close>

lemma table_handler_miss:
  assumes nt: "normaliseMethodTable rt entries = Inr table"
    and none: "entry_for rt entries (toUpperCase rt (req_method request)) = None"
      "entry_for rt entries ''ALL'' = None"
  shows "status (table_handler rt table (join '', '' (allowed table)) base onError request) = 405"
    and "body (table_handler rt table (join '', '' (allowed table)) base onError request)
      = TextBody ''Method Not Allowed''"
    and "h_get (headers (table_handler rt table (join '', '' (allowed table)) base onError
          request)) ''Allow'' =
       (if declared_verbs rt entries = [] then base_value base ''Allow''
        else Some (join '', '' (declared_verbs rt entries)))"
proof -
  note ok = normaliseMethodTable_ok [OF nt]
  have sel: "selected_entry rt table request = None"
    using none by (simp add: selected_entry_ok [OF nt])
  have allow: "declared_verbs rt entries \<noteq> [] \<Longrightarrow> join '', '' (declared_verbs rt entries) \<noteq> []"
    using join_verbs_nonempty [OF declared_verbs_methods [OF nt]] by simp
  have trim: "declared_verbs rt entries \<noteq> [] \<Longrightarrow>
      http_trim (join '', '' (declared_verbs rt entries)) = join '', '' (declared_verbs rt entries)"
    using join_verbs_trimmed [OF declared_verbs_methods [OF nt]] by simp
  have eq: "table_handler rt table (join '', '' (allowed table)) base onError request =
      applyBaseHeaders
        (Response_new rt (TextBody ''Method Not Allowed'') 405
           (if declared_verbs rt entries \<noteq> []
            then [(''Allow'', join '', '' (declared_verbs rt entries))] else []))
        base"
    using allow by (auto simp: table_handler_def sel ok(2))
  show "status (table_handler rt table (join '', '' (allowed table)) base onError request) = 405"
    unfolding eq by (simp add: status_applyBaseHeaders status_Response_new)
  show "body (table_handler rt table (join '', '' (allowed table)) base onError request)
      = TextBody ''Method Not Allowed''"
    unfolding eq by (simp add: body_applyBaseHeaders body_Response_new)
  show "h_get (headers (table_handler rt table (join '', '' (allowed table)) base onError
          request)) ''Allow'' =
       (if declared_verbs rt entries = [] then base_value base ''Allow''
        else Some (join '', '' (declared_verbs rt entries)))"
    unfolding eq h_get_applyBaseHeaders
    using trim by (simp add: h_get_method_not_allowed h_get_no_allow)
qed

text \<open>
  C3, as the code has it. The handler made for a method table answers a request as follows.
  If the upper-cased verb of the request has an entry, that entry is dispatched: its
  handler is executed, or its pre-built response is cloned. Otherwise the \<open>ALL\<close> entry is
  dispatched in the same way when there is one. When there is neither, the response has
  status 405 and the body \<open>Method Not Allowed\<close>; if the table declares at least one verb,
  its \<open>Allow\<close> header is the declared verbs in declaration order, joined by a comma and a
  space, the wildcard left out; if it declares none, the dispatcher sets no \<open>Allow\<close> header
  (the header is then whatever the base headers give). An entry is never an absent value.
\<close>

theorem method_table_dispatch:
  assumes "createRouteHandler rt (ETable entries) pattern base onError = Inr h"
  shows
    "(entry_for rt entries (toUpperCase rt (req_method request)) = Some (VHandler f) \<longrightarrow>
        h request = executeHandler rt f request localsFactory base onError)
     \<and> (entry_for rt entries (toUpperCase rt (req_method request)) = Some (VResponse r) \<longrightarrow>
        h request = cloneResponse r base)
     \<and> (entry_for rt entries (toUpperCase rt (req_method request)) = None
          \<and> entry_for rt entries ''ALL'' = Some (VHandler f) \<longrightarrow>
        h request = executeHandler rt f request localsFactory base onError)
     \<and> (entry_for rt entries (toUpperCase rt (req_method request)) = None
          \<and> entry_for rt entries ''ALL'' = Some (VResponse r) \<longrightarrow>
        h request = cloneResponse r base)
     \<and> (entry_for rt entries (toUpperCase rt (req_method request)) = None
          \<and> entry_for rt entries ''ALL'' = None \<longrightarrow>
        status (h request) = 405
        \<and> body (h request) = TextBody ''Method Not Allowed''
        \<and> h_get (headers (h request)) ''Allow'' =
            (if declared_verbs rt entries = [] then base_value base ''Allow''
             else Some (join '', '' (declared_verbs rt entries))))
     \<and> entry_for rt entries verb \<noteq> Some VUndefined"
proof -
  from createRouteHandler_table [OF assms] obtain table where
    nt: "normaliseMethodTable rt entries = Inr table" and
    h: "h = table_handler rt table (join '', '' (allowed table)) base onError"
    by blast
  note sel = selected_entry_ok [OF nt]
  have hit:
    "(entry_for rt entries (toUpperCase rt (req_method request)) = Some (VHandler f) \<longrightarrow>
        h request = executeHandler rt f request localsFactory base onError)
     \<and> (entry_for rt entries (toUpperCase rt (req_method request)) = Some (VResponse r) \<longrightarrow>
        h request = cloneResponse r base)
     \<and> (entry_for rt entries (toUpperCase rt (req_method request)) = None
          \<and> entry_for rt entries ''ALL'' = Some (VHandler f) \<longrightarrow>
        h request = executeHandler rt f request localsFactory base onError)
     \<and> (entry_for rt entries (toUpperCase rt (req_method request)) = None
          \<and> entry_for rt entries ''ALL'' = Some (VResponse r) \<longrightarrow>
        h request = cloneResponse r base)"
    by (simp add: h table_handler_def sel)
  have none:
    "entry_for rt entries (toUpperCase rt (req_method request)) = None
          \<and> entry_for rt entries ''ALL'' = None \<longrightarrow>
        status (h request) = 405
        \<and> body (h request) = TextBody ''Method Not Allowed''
        \<and> h_get (headers (h request)) ''Allow'' =
            (if declared_verbs rt entries = [] then base_value base ''Allow''
             else Some (join '', '' (declared_verbs rt entries)))"
    unfolding h using table_handler_miss [OF nt, of request base onError] by blast
  from hit none entry_for_not_undefined [of rt entries verb] show ?thesis by blast
qed

lemmas string_eval =
  ascii_toUpperCase_def toLowerCase_def upper_char_def lower_char_def lower_letters_def
  upper_letters_def

lemma example_toUpperCase: "toUpperCase example_runtime = ascii_toUpperCase"
  by (simp add: example_runtime_def)

theorem method_table_dispatch_witness:
  "createRouteHandler example_runtime (ETable example_get_table) ''/resource'' None None =
     Inr (table_handler example_runtime example_get_normalised ''GET'' None None)
   \<and> status (table_handler example_runtime example_get_normalised ''GET'' None None
            example_post) = 405
   \<and> h_get (headers (table_handler example_runtime example_get_normalised ''GET'' None None
            example_post)) ''Allow'' = Some ''GET''
   \<and> table_handler example_runtime example_get_normalised ''GET'' None None example_get
        = cloneResponse example_ok None"
proof -
  have c: "createRouteHandler example_runtime (ETable example_get_table) ''/resource'' None None =
     Inr (table_handler example_runtime example_get_normalised ''GET'' None None)"
    by (simp add: createRouteHandler_def normaliseMethodTable_def METHODS_def set_add_def
        example_get_table_def example_get_normalised_def Let_def example_toUpperCase string_eval)
  have e1: "entry_for example_runtime example_get_table
        (toUpperCase example_runtime (req_method example_post)) = None"
    and e2: "entry_for example_runtime example_get_table ''ALL'' = None"
    and e3: "entry_for example_runtime example_get_table
        (toUpperCase example_runtime (req_method example_get)) = Some (VResponse example_ok)"
    and d: "declared_verbs example_runtime example_get_table = [''GET'']"
    by (simp_all add: entry_for_def declared_verbs_def upper_entries_def is_defined_def
        example_get_table_def example_post_def example_get_def example_toUpperCase string_eval)
  have p: "status (table_handler example_runtime example_get_normalised ''GET'' None None
            example_post) = 405
   \<and> h_get (headers (table_handler example_runtime example_get_normalised ''GET'' None None
            example_post)) ''Allow'' = Some ''GET''"
    using e1 e2 d
      method_table_dispatch [OF c, of example_post "\<lambda>ctx. Inr RNull" example_ok "''GET''"]
    by simp
  have g: "table_handler example_runtime example_get_normalised ''GET'' None None example_get
        = cloneResponse example_ok None"
    using e3
      method_table_dispatch [OF c, of example_get "\<lambda>ctx. Inr RNull" example_ok "''GET''"]
    by simp
  from c p g show ?thesis by simp
qed

text \<open>
  C3 as stated fails on the empty method table: the 405 response has no \<open>Allow\<close> header at
  all, where the claim wants one whose value is the (empty) list of declared verbs.
\<close>

theorem empty_method_table_no_allow:
  "createRouteHandler example_runtime (ETable []) ''/resource'' None None =
     Inr (table_handler example_runtime \<lparr>methods = [], allowed = []\<rparr> [] None None)
   \<and> status (table_handler example_runtime \<lparr>methods = [], allowed = []\<rparr> [] None None
        example_post) = 405
   \<and> h_get (headers (table_handler example_runtime \<lparr>methods = [], allowed = []\<rparr> [] None None
        example_post)) ''Allow'' = None"
  by (simp add: createRouteHandler_def normaliseMethodTable_def table_handler_def
      selected_entry_def status_applyBaseHeaders status_Response_new h_get_applyBaseHeaders
      h_get_no_allow base_value_def)






lemma has_value_for_Cons:
  "has_value_for rt ((k, v) # es) V =
     ((is_defined v \<and> toUpperCase rt k = V) \<or> has_value_for rt es V)"
  by (simp add: has_value_for_def)

lemma has_value_for_append:
  "has_value_for rt (xs @ ys) V = (has_value_for rt xs V \<or> has_value_for rt ys V)"
  by (simp add: has_value_for_def)

lemma entry_for_last:
  assumes "is_defined v" and "\<not> has_value_for rt after (toUpperCase rt key)"
  shows "entry_for rt (before @ (key, v) # after) (toUpperCase rt key) = Some v"
proof -
  have "entry_for rt after (toUpperCase rt key) = None"
    using assms(2) by (simp add: entry_for_None)
  then have "entry_for rt ((key, v) # after) (toUpperCase rt key) = Some v"
    using assms(1) by (simp add: entry_for_Cons)
  then show ?thesis by (simp add: entry_for_append)
qed

lemma answer_selected:
  assumes "selected_entry rt table request = Some v" and "is_defined v"
  shows "Some (table_handler rt table allowHeader base onError request) =
     answer rt v base onError request"
  using assms by (cases v) (simp_all add: table_handler_def answer_def is_defined_def)

text \<open>
  C10. A method table whose keys upper-case to recognised verbs or to \<open>ALL\<close> is accepted,
  whatever the case of its keys. Take a key of the table with a value, the last one that
  upper-cases as it does. A request whose method upper-cases to the same verb is answered
  by the entry of that key: \<open>get\<close> answers \<open>GET\<close> requests, and requests whose method is
  written \<open>get\<close>. When the key upper-cases to \<open>ALL\<close>, its entry answers every request
  whose upper-cased method has no entry of its own. A request that finds neither gets
  status 405 with an \<open>Allow\<close> header that lists the declared verbs in upper case, the
  verb of the key among them; the verbs listed are those, other than \<open>ALL\<close>, that some
  key with a value upper-cases to.
\<close>

theorem method_keys_case_insensitive:
  assumes "list_all (\<lambda>(k, w). accepted_key rt k) (before @ (key, v) # after)"
    and "is_defined v"
    and "\<not> has_value_for rt after (toUpperCase rt key)"
  shows "\<exists>h. createRouteHandler rt (ETable (before @ (key, v) # after)) pattern base onError
        = Inr h
     \<and> (\<forall>request. toUpperCase rt (req_method request) = toUpperCase rt key \<longrightarrow>
          Some (h request) = answer rt v base onError request)
     \<and> (\<forall>request. toUpperCase rt key = ''ALL''
            \<and> \<not> has_value_for rt (before @ (key, v) # after)
                  (toUpperCase rt (req_method request)) \<longrightarrow>
          Some (h request) = answer rt v base onError request)
     \<and> (\<forall>request. \<not> has_value_for rt (before @ (key, v) # after)
                  (toUpperCase rt (req_method request))
            \<and> \<not> has_value_for rt (before @ (key, v) # after) ''ALL'' \<longrightarrow>
          status (h request) = 405
          \<and> h_get (headers (h request)) ''Allow'' =
              Some (join '', '' (declared_verbs rt (before @ (key, v) # after)))
          \<and> toUpperCase rt key \<in> set (declared_verbs rt (before @ (key, v) # after)))
     \<and> set (declared_verbs rt (before @ (key, v) # after)) =
         {V. V \<noteq> ''ALL'' \<and> has_value_for rt (before @ (key, v) # after) V}"
proof -
  define es where "es = before @ (key, v) # after"
  from normalise_keys_success [OF assms(1)] obtain table where
    nt: "normaliseMethodTable rt es = Inr table"
    unfolding normaliseMethodTable_def es_def by blast
  define h where "h = table_handler rt table (join '', '' (allowed table)) base onError"
  have c: "createRouteHandler rt (ETable es) pattern base onError = Inr h"
    by (simp add: createRouteHandler_def nt h_def)
  note sel = selected_entry_ok [OF nt]
  have own: "entry_for rt es (toUpperCase rt key) = Some v"
    unfolding es_def using assms(2,3) by (rule entry_for_last)
  have has: "has_value_for rt es (toUpperCase rt key)"
    using assms(2) by (simp add: es_def has_value_for_append has_value_for_Cons)
  have exact: "\<forall>request. toUpperCase rt (req_method request) = toUpperCase rt key \<longrightarrow>
          Some (h request) = answer rt v base onError request"
  proof (intro allI impI)
    fix request :: request
    assume "toUpperCase rt (req_method request) = toUpperCase rt key"
    then have "selected_entry rt table request = Some v" by (simp add: sel own)
    then show "Some (h request) = answer rt v base onError request"
      unfolding h_def using assms(2) by (rule answer_selected)
  qed
  have wild: "\<forall>request. toUpperCase rt key = ''ALL''
            \<and> \<not> has_value_for rt es (toUpperCase rt (req_method request)) \<longrightarrow>
          Some (h request) = answer rt v base onError request"
  proof (intro allI impI)
    fix request :: request
    assume a: "toUpperCase rt key = ''ALL''
            \<and> \<not> has_value_for rt es (toUpperCase rt (req_method request))"
    then have "entry_for rt es (toUpperCase rt (req_method request)) = None"
      by (simp add: entry_for_None)
    moreover from a own have "entry_for rt es ''ALL'' = Some v" by simp
    ultimately have "selected_entry rt table request = Some v" by (simp add: sel)
    then show "Some (h request) = answer rt v base onError request"
      unfolding h_def using assms(2) by (rule answer_selected)
  qed
  have verbs: "set (declared_verbs rt es) = {V. V \<noteq> ''ALL'' \<and> has_value_for rt es V}"
    by (rule set_declared_verbs)
  have miss: "\<forall>request. \<not> has_value_for rt es (toUpperCase rt (req_method request))
            \<and> \<not> has_value_for rt es ''ALL'' \<longrightarrow>
          status (h request) = 405
          \<and> h_get (headers (h request)) ''Allow'' = Some (join '', '' (declared_verbs rt es))
          \<and> toUpperCase rt key \<in> set (declared_verbs rt es)"
  proof (intro allI impI)
    fix request :: request
    assume a: "\<not> has_value_for rt es (toUpperCase rt (req_method request))
            \<and> \<not> has_value_for rt es ''ALL''"
    then have n1: "entry_for rt es (toUpperCase rt (req_method request)) = None"
      and n2: "entry_for rt es ''ALL'' = None"
      by (simp_all add: entry_for_None)
    from a has have "toUpperCase rt key \<noteq> ''ALL''" by auto
    with has have mem: "toUpperCase rt key \<in> set (declared_verbs rt es)" by (simp add: verbs)
    then have ne: "declared_verbs rt es \<noteq> []" by auto
    from table_handler_miss [OF nt n1 n2, of base onError] ne mem
    show "status (h request) = 405
          \<and> h_get (headers (h request)) ''Allow'' = Some (join '', '' (declared_verbs rt es))
          \<and> toUpperCase rt key \<in> set (declared_verbs rt es)"
      by (simp add: h_def)
  qed
  from c exact wild miss verbs show ?thesis
    unfolding es_def by blast
qed

theorem method_keys_case_insensitive_witness:
  "list_all (\<lambda>(k, w). accepted_key example_runtime k) example_mixed_table
   \<and> (\<exists>h. createRouteHandler example_runtime (ETable example_mixed_table) ''/resource''
            None None = Inr h
        \<and> h example_get = example_ok
        \<and> h example_delete = \<lparr>status = 200, headers = [], body = TextBody ''delete''\<rparr>)
   \<and> (\<exists>h. createRouteHandler example_runtime (ETable example_verbs_table) ''/resource''
            None None = Inr h
        \<and> status (h example_delete) = 405
        \<and> h_get (headers (h example_delete)) ''Allow'' = Some ''GET, POST'')"
proof -
  let ?get = "(''get'', VResponse example_ok :: (int, example_object) table_value)"
  let ?post = "(''Post'', VResponse example_created :: (int, example_object) table_value)"
  let ?all = "(''All'', VHandler example_any)"
  have up: "toUpperCase example_runtime ''get'' = ''GET''"
    "toUpperCase example_runtime ''Post'' = ''POST''"
    "toUpperCase example_runtime ''All'' = ''ALL''"
    "toUpperCase example_runtime ''delete'' = ''DELETE''"
    by (simp_all add: example_toUpperCase string_eval)
  have m: "example_mixed_table = [] @ ?get # [?post, ?all]"
    "example_mixed_table = [?get, ?post] @ ?all # []"
    "example_verbs_table = [] @ ?get # [?post]"
    by (simp_all add: example_mixed_table_def example_verbs_table_def)
  have acc: "list_all (\<lambda>(k, w). accepted_key example_runtime k) example_mixed_table"
    "list_all (\<lambda>(k, w). accepted_key example_runtime k) example_verbs_table"
    by (simp_all add: example_mixed_table_def example_verbs_table_def accepted_key_def up
        METHODS_def)
  have d: "is_defined (VResponse example_ok :: (int, example_object) table_value)"
    "is_defined (VHandler example_any)"
    by (simp_all add: is_defined_def)
  have l1: "\<not> has_value_for example_runtime [?post, ?all] (toUpperCase example_runtime ''get'')"
    and l2: "\<not> has_value_for example_runtime [] (toUpperCase example_runtime ''All'')"
    and l3: "\<not> has_value_for example_runtime [?post] (toUpperCase example_runtime ''get'')"
    by (simp_all add: has_value_for_def up)
  have r: "toUpperCase example_runtime (req_method example_get) = toUpperCase example_runtime ''get''"
    "\<not> has_value_for example_runtime example_mixed_table
         (toUpperCase example_runtime (req_method example_delete))"
    "\<not> has_value_for example_runtime example_verbs_table
         (toUpperCase example_runtime (req_method example_delete))"
    "\<not> has_value_for example_runtime example_verbs_table ''ALL''"
    by (simp_all add: has_value_for_def up example_get_def example_delete_def
        example_mixed_table_def example_verbs_table_def)
  have a1: "answer example_runtime (VResponse example_ok) None None example_get = Some example_ok"
    by (simp add: answer_def cloneResponse_def applyBaseHeaders_None)
  have a2: "answer example_runtime (VHandler example_any) None None example_delete =
      Some \<lparr>status = 200, headers = [], body = TextBody ''delete''\<rparr>"
    by code_simp
  have v: "join '', '' (declared_verbs example_runtime example_verbs_table) = ''GET, POST''"
    by code_simp
  from method_keys_case_insensitive [of example_runtime "[]" "''get''" "VResponse example_ok"
      "[?post, ?all]" "''/resource''" None None, folded m(1), OF acc(1) d(1) l1]
  obtain h1 where h1: "createRouteHandler example_runtime (ETable example_mixed_table)
        ''/resource'' None None = Inr h1"
    and g1: "Some (h1 example_get) = answer example_runtime (VResponse example_ok) None None
        example_get"
    using r(1) by blast
  from method_keys_case_insensitive [of example_runtime "[?get, ?post]" "''All''"
      "VHandler example_any" "[]" "''/resource''" None None, folded m(2), OF acc(1) d(2) l2]
  obtain h2 where h2: "createRouteHandler example_runtime (ETable example_mixed_table)
        ''/resource'' None None = Inr h2"
    and g2: "Some (h2 example_delete) = answer example_runtime (VHandler example_any) None None
        example_delete"
    using r(2) up(3) by blast
  from method_keys_case_insensitive [of example_runtime "[]" "''get''" "VResponse example_ok"
      "[?post]" "''/resource''" None None, folded m(3), OF acc(2) d(1) l3]
  obtain h3 where h3: "createRouteHandler example_runtime (ETable example_verbs_table)
        ''/resource'' None None = Inr h3"
    and g3: "status (h3 example_delete) = 405
        \<and> h_get (headers (h3 example_delete)) ''Allow'' =
            Some (join '', '' (declared_verbs example_runtime example_verbs_table))"
    using r(3,4) by blast
  from h1 h2 have same: "h2 = h1" by simp
  from h1 g1 g2 a1 a2 same have first: "\<exists>h. createRouteHandler example_runtime
        (ETable example_mixed_table) ''/resource'' None None = Inr h
        \<and> h example_get = example_ok
        \<and> h example_delete = \<lparr>status = 200, headers = [], body = TextBody ''delete''\<rparr>"
    by auto
  from h3 g3 v have second: "\<exists>h. createRouteHandler example_runtime (ETable example_verbs_table)
        ''/resource'' None None = Inr h
        \<and> status (h example_delete) = 405
        \<and> h_get (headers (h example_delete)) ''Allow'' = Some ''GET, POST''"
    by auto
  from acc(1) first second show ?thesis by blast
qed

section \<open>Properties of the server\<close>

lemmas path_eval =
  path_resolve_def normalizeString_def path_relative_def path_segments_def isWithin_def
  isAbsolute_def startsWith_def endsWith_def normaliseRelativePath_def sanitisePrefix_def
  resolveStaticPath_def Let_def

lemma example_static_root:
  "createStaticHandler example_runtime example_static example_root_get None =
     Inr (Some \<lparr>status = 200,
                headers = [(''content-type'', ''text/html''), (''content-length'', ''5'')],
                body = BinaryBody (Blob ''hello'' ''text/html'')\<rparr>)"
  by code_simp

text \<open>
  C4 as stated fails. With a static directory that holds \<open>index.html\<close> and a route for
  \<open>/\<close>, the static handler does produce a response for \<open>GET /\<close>, yet the server answers
  with the route's response: the routes go to the router of the runtime, which runs before
  \<open>fetch\<close>, where the static handlers live.
\<close>

theorem route_answers_before_static:
  "try_static (buildStaticHandlers example_runtime (opt_static example_route_options))
       example_root_get (opt_baseHeaders example_route_options) =
     Inr (Some \<lparr>status = 200,
                headers = [(''content-type'', ''text/html''), (''content-length'', ''5'')],
                body = BinaryBody (Blob ''hello'' ''text/html'')\<rparr>)
   \<and> handle_request example_runtime example_route_options example_root_get =
     Inr \<lparr>status = 200, headers = [(''content-type'', ''text/html; charset=utf-8'')],
          body = TextBody ''<h1>Hello</h1>''\<rparr>"
proof -
  have s: "try_static (buildStaticHandlers example_runtime (opt_static example_route_options))
       example_root_get (opt_baseHeaders example_route_options) =
     Inr (Some \<lparr>status = 200,
                headers = [(''content-type'', ''text/html''), (''content-length'', ''5'')],
                body = BinaryBody (Blob ''hello'' ''text/html'')\<rparr>)"
    by (simp add: example_route_options_def buildStaticHandlers_def example_static_root)
  have r: "handle_request example_runtime example_route_options example_root_get =
     Inr \<lparr>status = 200, headers = [(''content-type'', ''text/html; charset=utf-8'')],
          body = TextBody ''<h1>Hello</h1>''\<rparr>"
    by code_simp
  from s r show ?thesis by simp
qed

lemma try_static_first:
  "list_all (\<lambda>g. g request base = Inr None) pre \<Longrightarrow> s request base = Inr (Some r) \<Longrightarrow>
   try_static (pre @ s # post) request base = Inr (Some r)"
  by (induction pre) simp_all

lemma try_static_none:
  "list_all (\<lambda>g. g request base = Inr None) hs \<Longrightarrow> try_static hs request base = Inr None"
  by (induction hs) simp_all

lemma unrouted_fetch: "unrouted rt srv request \<Longrightarrow> Bun_serve rt srv request = srv_fetch srv request"
  by (auto simp: unrouted_def Bun_serve_def split: option.splits)

lemma createServer_fetch:
  "createServer rt options = Inr srv \<Longrightarrow>
   srv_fetch srv = fetchHandler rt (buildStaticHandlers rt (opt_static options))
     (opt_notFound options) (opt_onError options) (opt_baseHeaders options)"
  by (auto simp: createServer_def Let_def split: sum.splits option.splits)

text \<open>
  C4, as the code has it. A server made by \<open>createServer\<close> answers a request in this order.
  If the router matches a route pattern, that route's handler answers. Only for a request no
  route matches does \<open>fetch\<close> run: the static handlers are tried in declaration order and
  the first response one of them produces is returned; if none produces one, the not-found
  entry answers when one is configured; otherwise the generic 404 response is returned.
\<close>

theorem request_order:
  assumes "createServer rt options = Inr srv"
  shows
    "(srv_routes srv = Some routes
        \<and> route_match rt (map fst routes) (req_pathname request) = Some pattern
        \<and> map_of routes pattern = Some h
      \<longrightarrow> Bun_serve rt srv request = Inr (h request))
     \<and> (unrouted rt srv request
        \<and> buildStaticHandlers rt (opt_static options) = pre @ s # post
        \<and> list_all (\<lambda>g. g request (opt_baseHeaders options) = Inr None) pre
        \<and> s request (opt_baseHeaders options) = Inr (Some r)
      \<longrightarrow> Bun_serve rt srv request = Inr r)
     \<and> (unrouted rt srv request
        \<and> list_all (\<lambda>g. g request (opt_baseHeaders options) = Inr None)
             (buildStaticHandlers rt (opt_static options))
        \<and> opt_notFound options = Some entry
        \<and> resolveEntry rt entry (createContext request localsFactory) (opt_baseHeaders options)
             = Inr found
      \<longrightarrow> Bun_serve rt srv request = Inr found)
     \<and> (unrouted rt srv request
        \<and> list_all (\<lambda>g. g request (opt_baseHeaders options) = Inr None)
             (buildStaticHandlers rt (opt_static options))
        \<and> opt_notFound options = None
      \<longrightarrow> Bun_serve rt srv request =
            Inr (applyBaseHeaders (Response_new rt (TextBody ''Not Found'') 404 [])
                   (opt_baseHeaders options)))"
proof -
  note f = createServer_fetch [OF assms]
  have routed: "srv_routes srv = Some routes
        \<and> route_match rt (map fst routes) (req_pathname request) = Some pattern
        \<and> map_of routes pattern = Some h
      \<longrightarrow> Bun_serve rt srv request = Inr (h request)"
    by (simp add: Bun_serve_def)
  have static: "unrouted rt srv request
        \<and> buildStaticHandlers rt (opt_static options) = pre @ s # post
        \<and> list_all (\<lambda>g. g request (opt_baseHeaders options) = Inr None) pre
        \<and> s request (opt_baseHeaders options) = Inr (Some r)
      \<longrightarrow> Bun_serve rt srv request = Inr r"
    by (simp add: unrouted_fetch f fetchHandler_def try_static_first)
  have nf: "unrouted rt srv request
        \<and> list_all (\<lambda>g. g request (opt_baseHeaders options) = Inr None)
             (buildStaticHandlers rt (opt_static options))
        \<and> opt_notFound options = Some entry
        \<and> resolveEntry rt entry (createContext request localsFactory) (opt_baseHeaders options)
             = Inr found
      \<longrightarrow> Bun_serve rt srv request = Inr found"
    by (simp add: unrouted_fetch f fetchHandler_def try_static_none)
  have generic: "unrouted rt srv request
        \<and> list_all (\<lambda>g. g request (opt_baseHeaders options) = Inr None)
             (buildStaticHandlers rt (opt_static options))
        \<and> opt_notFound options = None
      \<longrightarrow> Bun_serve rt srv request =
            Inr (applyBaseHeaders (Response_new rt (TextBody ''Not Found'') 404 [])
                   (opt_baseHeaders options))"
    by (simp add: unrouted_fetch f fetchHandler_def try_static_none)
  from routed static nf generic show ?thesis by blast
qed

theorem request_order_witness:
  "createServer example_runtime example_route_options = Inr example_server
   \<and> Bun_serve example_runtime example_server example_root_get = Inr example_home
   \<and> Bun_serve example_runtime example_server example_index_get =
       Inr \<lparr>status = 200,
            headers = [(''content-type'', ''text/html''), (''content-length'', ''5'')],
            body = BinaryBody (Blob ''hello'' ''text/html'')\<rparr>
   \<and> Bun_serve example_runtime example_server example_missing_get =
       Inr (applyBaseHeaders (Response_new example_runtime (TextBody ''Not Found'') 404 []) None)"
proof -
  let ?s = "createStaticHandler example_runtime example_static"
  have c: "createServer example_runtime example_route_options = Inr example_server"
    by (simp add: createServer_def example_route_options_def example_server_def
        createRouteHandler_def buildStaticHandlers_def)
  have o: "opt_baseHeaders example_route_options = None"
      "opt_notFound example_route_options = None"
      "buildStaticHandlers example_runtime (opt_static example_route_options) = [] @ ?s # []"
    by (simp_all add: example_route_options_def buildStaticHandlers_def)
  have r1: "srv_routes example_server = Some [(''/'', \<lambda>request. cloneResponse example_home None)]"
    by (simp add: example_server_def)
  have r2: "route_match example_runtime
      (map fst [(''/'', \<lambda>request :: request. cloneResponse example_home None)])
      (req_pathname example_root_get) = Some ''/''"
    by (simp add: example_runtime_def example_root_get_def)
  have u1: "unrouted example_runtime example_server example_index_get"
    and u2: "unrouted example_runtime example_server example_missing_get"
    by (simp_all add: unrouted_def example_server_def example_runtime_def
        example_index_get_def example_missing_get_def)
  have s1: "?s example_index_get None =
      Inr (Some \<lparr>status = 200,
            headers = [(''content-type'', ''text/html''), (''content-length'', ''5'')],
            body = BinaryBody (Blob ''hello'' ''text/html'')\<rparr>)"
    by code_simp
  have s2: "?s example_missing_get None = Inr None"
    by code_simp
  have a: "Bun_serve example_runtime example_server example_root_get = Inr example_home"
    using r1 r2
      request_order [OF c, of "[(''/'', \<lambda>request. cloneResponse example_home None)]"
        example_root_get "''/''" "\<lambda>request. cloneResponse example_home None"
        "[]" ?s "[]" example_home "NFResponse example_home" example_home]
    by (simp add: cloneResponse_def applyBaseHeaders_def)
  have b: "Bun_serve example_runtime example_server example_index_get =
       Inr \<lparr>status = 200,
            headers = [(''content-type'', ''text/html''), (''content-length'', ''5'')],
            body = BinaryBody (Blob ''hello'' ''text/html'')\<rparr>"
    using u1 o s1
      request_order [OF c, of "[(''/'', \<lambda>request. cloneResponse example_home None)]"
        example_index_get "''/''" "\<lambda>request. cloneResponse example_home None"
        "[]" ?s "[]"
        "\<lparr>status = 200,
            headers = [(''content-type'', ''text/html''), (''content-length'', ''5'')],
            body = BinaryBody (Blob ''hello'' ''text/html'')\<rparr>"
        "NFResponse example_home" example_home]
    by simp
  have d: "Bun_serve example_runtime example_server example_missing_get =
       Inr (applyBaseHeaders (Response_new example_runtime (TextBody ''Not Found'') 404 []) None)"
    using u2 o s2
      request_order [OF c, of "[(''/'', \<lambda>request. cloneResponse example_home None)]"
        example_missing_get "''/''" "\<lambda>request. cloneResponse example_home None"
        "[]" ?s "[]" example_home "NFResponse example_home" example_home]
    by simp
  from c a b d show ?thesis by simp
qed

section \<open>Properties of static path resolution\<close>

lemma split_on_nonempty: "split_on c xs \<noteq> []"
  by (induction xs) (auto split: list.splits)

lemma split_on_no_sep: "s \<in> set (split_on c xs) \<Longrightarrow> c \<notin> set s"
proof (induction xs arbitrary: s)
  case Nil
  then show ?case by simp
next
  case (Cons x xs)
  then show ?case
    by (cases "split_on c xs") (auto split: if_splits)
qed

lemma split_on_append: "split_on c (xs @ c # ys) = split_on c xs @ split_on c ys"
proof (induction xs)
  case Nil
  then show ?case by simp
next
  case (Cons x xs)
  then show ?case
    using split_on_nonempty [of c xs]
    by (cases "split_on c xs") auto
qed

lemma split_on_single: "c \<notin> set s \<Longrightarrow> split_on c s = [s]"
  by (induction s) auto

lemma split_join:
  "ns \<noteq> [] \<Longrightarrow> \<forall>s \<in> set ns. c \<notin> set s \<Longrightarrow> split_on c (join [c] ns) = ns"
proof (induction "[c]" ns rule: join.induct)
  case 1
  then show ?case by simp
next
  case (2 x)
  then show ?case by (simp add: split_on_single)
next
  case (3 x y ys)
  then show ?case by (simp add: split_on_append split_on_single)
qed

lemma normalize_segments_append:
  "normalize_segments a (xs @ ys) res = normalize_segments a ys (normalize_segments a xs res)"
  by (induction xs arbitrary: res) auto

lemma normalize_segments_plain:
  "\<forall>s \<in> set segs. s \<noteq> ''.'' \<and> s \<noteq> ''..'' \<Longrightarrow>
   normalize_segments a segs res = res @ filter (\<lambda>s. s \<noteq> []) segs"
  by (induction segs arbitrary: res) simp_all

lemma clean_butlast: "clean_segments res \<Longrightarrow> clean_segments (butlast res)"
  by (auto simp: clean_segments_def list_all_iff dest: in_set_butlastD)

lemma clean_snoc:
  "clean_segments (res @ [seg]) =
     (clean_segments res \<and> seg \<noteq> [] \<and> seg \<noteq> ''.'' \<and> seg \<noteq> ''..'' \<and> CHR ''/'' \<notin> set seg)"
  by (simp add: clean_segments_def)

lemma clean_Nil: "clean_segments []"
  by (simp add: clean_segments_def)

lemma normalize_segments_clean:
  "\<forall>s \<in> set segs. CHR ''/'' \<notin> set s \<Longrightarrow> clean_segments res \<Longrightarrow>
   clean_segments (normalize_segments False segs res)"
proof (induction segs arbitrary: res)
  case Nil
  then show ?case by simp
next
  case (Cons seg segs)
  then show ?case
    by (auto simp: clean_butlast clean_snoc)
qed

lemma path_segments_normal:
  assumes "clean_segments ns"
  shows "path_segments (CHR ''/'' # join ''/'' ns) = ns"
proof (cases ns)
  case Nil
  then show ?thesis by (simp add: path_segments_def)
next
  case (Cons n ns')
  with assms have "\<forall>s \<in> set ns. CHR ''/'' \<notin> set s" and ne: "\<forall>s \<in> set ns. s \<noteq> []"
    by (auto simp: clean_segments_def list_all_iff)
  then have "split_on CHR ''/'' (join ''/'' ns) = ns"
    using split_join [of ns "CHR ''/''"] Cons by simp
  with ne show ?thesis
    by (simp add: path_segments_def filter_id_conv)
qed

lemma split_normal:
  assumes "clean_segments ns"
  shows "split_on CHR ''/'' (join ''/'' ns) = (if ns = [] then [[]] else ns)"
proof (cases ns)
  case Nil
  then show ?thesis by simp
next
  case (Cons n ns')
  with assms have "\<forall>s \<in> set ns. CHR ''/'' \<notin> set s"
    by (auto simp: clean_segments_def list_all_iff)
  then have "split_on CHR ''/'' (join ''/'' ns) = ns"
    using split_join [of ns "CHR ''/''"] Cons by simp
  with Cons show ?thesis by simp
qed

lemma resolve_paths_absolute:
  "isAbsolute d \<Longrightarrow> \<exists>rp. resolve_paths (ps @ [d]) acc = (rp, True)"
  by (induction ps arbitrary: acc) (auto simp: isAbsolute_def)

lemma path_resolve_normal:
  assumes "isAbsolute d"
  shows "\<exists>ns. clean_segments ns \<and> path_resolve d args = CHR ''/'' # join ''/'' ns"
proof -
  from resolve_paths_absolute [OF assms] obtain rp where
    rp: "resolve_paths (rev args @ [d]) [] = (rp, True)" by blast
  let ?ns = "normalize_segments False (split_on CHR ''/'' rp) []"
  have "clean_segments ?ns"
    by (rule normalize_segments_clean) (auto dest: split_on_no_sep simp: clean_Nil)
  moreover have "path_resolve d args = CHR ''/'' # join ''/'' ?ns"
    by (simp add: path_resolve_def rp normalizeString_def)
  ultimately show ?thesis by blast
qed

lemma path_resolve_idem:
  assumes "clean_segments ns"
  shows "path_resolve d [CHR ''/'' # join ''/'' ns] = CHR ''/'' # join ''/'' ns"
proof -
  let ?R = "CHR ''/'' # join ''/'' ns"
  let ?segs = "[] # (if ns = [] then [[]] else ns) @ [[]]"
  have rp: "resolve_paths (rev [?R] @ [d]) [] = (?R @ ''/'', True)" by simp
  have "split_on CHR ''/'' (join ''/'' ns @ ''/'') = split_on CHR ''/'' (join ''/'' ns) @ [[]]"
    using split_on_append [of "CHR ''/''" "join ''/'' ns" "[]"] by simp
  then have sp: "split_on CHR ''/'' (?R @ ''/'') = ?segs"
    by (simp add: split_normal [OF assms])
  from assms have ne: "\<forall>s \<in> set ns. s \<noteq> [] \<and> s \<noteq> ''.'' \<and> s \<noteq> ''..''"
    by (auto simp: clean_segments_def list_all_iff)
  then have plain: "\<forall>s \<in> set ?segs. s \<noteq> ''.'' \<and> s \<noteq> ''..''" by simp
  from ne have "filter (\<lambda>s. s \<noteq> []) ?segs = ns"
    by (simp add: filter_id_conv)
  then have "normalize_segments False ?segs [] = ns"
    using normalize_segments_plain [OF plain, of False "[]"] by simp
  then have "normalizeString (?R @ ''/'') False = join ''/'' ns"
    unfolding normalizeString_def sp by simp
  then show ?thesis
    unfolding path_resolve_def rp by simp
qed

lemma common_length_le: "common_length xs ys \<le> length xs"
  by (induction xs ys rule: common_length.induct) simp_all

lemma common_length_take:
  "take (common_length xs ys) ys = take (common_length xs ys) xs"
  by (induction xs ys rule: common_length.induct) simp_all

lemma startsWith_join_dotdot: "startsWith (join sep (''..'' # xs)) ''..''"
  by (cases xs) (simp_all add: startsWith_def)

lemma isWithin_prefix:
  assumes rs: "clean_segments rs" and ts: "clean_segments ts"
    and w: "isWithin d (CHR ''/'' # join ''/'' rs) (CHR ''/'' # join ''/'' ts)"
  shows "take (length rs) ts = rs"
proof (cases "CHR ''/'' # join ''/'' rs = CHR ''/'' # join ''/'' ts")
  case True
  then have "path_segments (CHR ''/'' # join ''/'' rs) = path_segments (CHR ''/'' # join ''/'' ts)"
    by simp
  then have "rs = ts" by (simp add: path_segments_normal rs ts)
  then show ?thesis by simp
next
  case False
  let ?n = "common_length rs ts"
  from False w have ns: "\<not> startsWith (join ''/'' (replicate (length rs - ?n) ''..'' @ drop ?n ts)) ''..''"
    by (simp add: isWithin_def path_relative_def path_resolve_idem rs ts path_segments_normal
        Let_def)
  have "length rs - ?n = 0"
  proof (rule ccontr)
    assume "length rs - ?n \<noteq> 0"
    then obtain k where "length rs - ?n = Suc k" by (cases "length rs - ?n") auto
    then have "replicate (length rs - ?n) ''..'' @ drop ?n ts
        = ''..'' # (replicate k ''..'' @ drop ?n ts)" by simp
    with ns show False by (simp add: startsWith_join_dotdot)
  qed
  with common_length_le [of rs ts] have "?n = length rs" by simp
  with common_length_take [of rs ts] show ?thesis by simp
qed

lemma resolved_within:
  assumes d: "isAbsolute d"
    and w: "isWithin d (path_resolve d a) (path_resolve d b)"
  shows "lexically_within (path_resolve d a) (path_resolve d b)"
proof -
  from path_resolve_normal [OF d, of a] obtain rs where
    rs: "clean_segments rs" "path_resolve d a = CHR ''/'' # join ''/'' rs" by blast
  from path_resolve_normal [OF d, of b] obtain ts where
    ts: "clean_segments ts" "path_resolve d b = CHR ''/'' # join ''/'' ts" by blast
  from w have "take (length rs) ts = rs"
    unfolding rs(2) ts(2) by (rule isWithin_prefix [OF rs(1) ts(1)])
  moreover from ts(1) have "''..'' \<notin> set ts"
    by (auto simp: clean_segments_def list_all_iff)
  ultimately show ?thesis
    by (simp add: lexically_within_def rs ts path_segments_normal isAbsolute_def)
qed

lemma safe_segments_no_dotdot:
  "''..'' \<notin> set safe \<Longrightarrow> ''..'' \<notin> set (safe_segments segs safe)"
  by (induction segs arbitrary: safe) (auto dest: in_set_butlastD)

text \<open>
  C1. With an absolute working directory (as the one of a process is) and the root
  \<open>path.resolve(dir)\<close> of a static configuration, whatever the directory, the decoded relative
  path, the index file name and the files on disk: \<open>resolveStaticPath\<close> returns nothing,
  or an absolute path whose segments start with the segments of the root and hold no
  \<open>..\<close>. The walk over the segments keeps no \<open>..\<close> segment, and a \<open>..\<close> met with nothing
  kept leaves the accumulator empty. Paths are POSIX paths.
\<close>

theorem static_path_within_root:
  assumes "isAbsolute (cwd rt)"
  shows
    "(resolveStaticPath rt (path_resolve (cwd rt) [dir]) relative indexFile = Some p
        \<longrightarrow> lexically_within (path_resolve (cwd rt) [dir]) p)
     \<and> ''..'' \<notin> set (safe_segments (split_on CHR ''/'' relative) [])
     \<and> safe_segments (''..'' # segments) [] = safe_segments segments []"
proof -
  have "resolveStaticPath rt (path_resolve (cwd rt) [dir]) relative indexFile = Some p
        \<longrightarrow> lexically_within (path_resolve (cwd rt) [dir]) p"
    by (auto simp: resolveStaticPath_def Let_def resolved_within [OF assms]
        split: if_splits)
  moreover have "''..'' \<notin> set (safe_segments (split_on CHR ''/'' relative) [])"
    by (rule safe_segments_no_dotdot) simp
  ultimately show ?thesis by simp
qed

theorem static_path_within_root_witness:
  "isAbsolute (cwd example_runtime)
   \<and> resolveStaticPath example_runtime (path_resolve (cwd example_runtime) [''public''])
        ''../../index.html'' ''index.html'' = Some ''/srv/app/public/index.html''
   \<and> lexically_within (path_resolve (cwd example_runtime) [''public''])
        ''/srv/app/public/index.html''
   \<and> resolveStaticPath example_runtime (path_resolve (cwd example_runtime) [''public''])
        ''../../etc/passwd'' ''index.html'' = None"
proof -
  have a: "isAbsolute (cwd example_runtime)" by code_simp
  have r: "resolveStaticPath example_runtime (path_resolve (cwd example_runtime) [''public''])
        ''../../index.html'' ''index.html'' = Some ''/srv/app/public/index.html''"
    by code_simp
  have n: "resolveStaticPath example_runtime (path_resolve (cwd example_runtime) [''public''])
        ''../../etc/passwd'' ''index.html'' = None"
    by code_simp
  from static_path_within_root [OF a, of "''public''" "''../../index.html''" "''index.html''"
      "''/srv/app/public/index.html''" "[]"] r
  have "lexically_within (path_resolve (cwd example_runtime) [''public''])
        ''/srv/app/public/index.html''" by simp
  with a r n show ?thesis by simp
qed

section \<open>Properties of the bootstrap script\<close>

lemma replace_lt_no_lt: "CHR ''<'' \<notin> set (replace_lt s)"
  by (induction s) simp_all

lemma contains_Cons2:
  "contains (a # r) [x, y] = ((a = x \<and> take 1 r = [y]) \<or> contains r [x, y])"
  by (cases r) (auto simp: startsWith_def)

lemma contains_Cons3:
  "contains (a # r) [x, y, z] = ((a = x \<and> take 2 r = [y, z]) \<or> contains r [x, y, z])"
  by (cases r; cases "tl r") (auto simp: startsWith_def)

lemma contains_short2: "length s < 2 \<Longrightarrow> \<not> contains s [x, y]"
  by (cases s; cases "tl s") (auto simp: startsWith_def)

lemma contains_short3: "length s < 3 \<Longrightarrow> \<not> contains s [x, y, z]"
  by (cases s; cases "tl s"; cases "tl (tl s)") (auto simp: startsWith_def)

lemma escape_close_tag_head: "take 1 (escape_close_tag v) = take 1 v"
  by (induction v rule: escape_close_tag.induct) simp_all

lemma escape_close_tag_safe: "\<not> contains (escape_close_tag v) ''</''"
proof (induction v rule: escape_close_tag.induct)
  case (1 a b cs)
  then show ?case
    using escape_close_tag_head [of "b # cs"] escape_close_tag_head [of cs]
    by (auto simp: contains_Cons2 simp del: contains.simps)
qed (simp_all add: startsWith_def)

lemma escape_comment_end_head: "take 2 (escape_comment_end v) = take 2 v"
proof (induction v rule: escape_comment_end.induct)
  case (1 a b c cs)
  then show ?case by (cases "escape_comment_end (b # c # cs)") auto
qed simp_all

lemma escape_comment_end_head1: "take 1 (escape_comment_end v) = take 1 v"
proof -
  have "take 1 (take 2 (escape_comment_end v)) = take 1 (take 2 v)"
    by (simp only: escape_comment_end_head)
  then show ?thesis by simp
qed

lemma escape_comment_end_keeps_safe:
  "\<not> contains v ''</'' \<Longrightarrow> \<not> contains (escape_comment_end v) ''</''"
proof (induction v rule: escape_comment_end.induct)
  case (1 a b c cs)
  then show ?case
    using escape_comment_end_head1 [of "b # c # cs"] escape_comment_end_head1 [of cs]
    by (auto simp: contains_Cons2 simp del: contains.simps)
qed simp_all

lemma escape_comment_end_safe: "\<not> contains (escape_comment_end v) ''-->''"
proof (induction v rule: escape_comment_end.induct)
  case (1 a b c cs)
  then show ?case
    using escape_comment_end_head [of "b # c # cs"] escape_comment_end_head [of cs]
    by (auto simp: contains_Cons3 simp del: contains.simps)
qed (simp_all add: contains_short3 del: contains.simps)

lemma sanitizeScript_safe:
  "\<not> contains (sanitizeScript v) ''</'' \<and> \<not> contains (sanitizeScript v) ''-->''"
  unfolding sanitizeScript_def
  using escape_comment_end_keeps_safe [OF escape_close_tag_safe] escape_comment_end_safe
  by blast

text \<open>
  \<open>contains\<close> is the occurrence of a string inside another.
\<close>

lemma contains_iff: "contains s sub = (\<exists>pre post. s = pre @ sub @ post)"
proof (induction s)
  case Nil
  then show ?case by auto
next
  case (Cons c cs)
  have sw: "startsWith (c # cs) sub = (\<exists>post. c # cs = sub @ post)"
    unfolding startsWith_def
    by (metis append_eq_conv_conj append_take_drop_id)
  show ?case
  proof
    assume "contains (c # cs) sub"
    then consider "startsWith (c # cs) sub" | "contains cs sub" by auto
    then show "\<exists>pre post. c # cs = pre @ sub @ post"
    proof cases
      case 1
      with sw obtain post where "c # cs = [] @ sub @ post" by auto
      then show ?thesis by blast
    next
      case 2
      with Cons obtain pre post where "cs = pre @ sub @ post" by blast
      then have "c # cs = (c # pre) @ sub @ post" by simp
      then show ?thesis by blast
    qed
  next
    assume "\<exists>pre post. c # cs = pre @ sub @ post"
    then obtain pre post where e: "c # cs = pre @ sub @ post" by blast
    show "contains (c # cs) sub"
    proof (cases pre)
      case Nil
      with e have "\<exists>post. c # cs = sub @ post" by auto
      with sw have "startsWith (c # cs) sub" by simp
      then show ?thesis by simp
    next
      case (Cons p pre')
      with e have "cs = pre' @ sub @ post" by simp
      with Cons.IH show ?thesis by auto
    qed
  qed
qed

text \<open>
  C9. Whatever the props and whatever text the serialiser gives for them, the payload
  \<open>serializeProps\<close> returns holds no \<open><\<close>; and whatever the route, its serialisation and the
  serialised props handed to \<open>HyperBunHydrationScripts\<close>, the inline bootstrap script holds
  neither \<open></\<close> nor \<open>-->\<close>.
\<close>

theorem bootstrap_payload_escaped:
  "(serializeProps stringify props = Inr payload \<longrightarrow> CHR ''<'' \<notin> set payload)
   \<and> (HyperBunHydrationScripts stringify_route p = Some (bootstrap, src) \<longrightarrow>
        \<not> contains bootstrap ''</'' \<and> \<not> contains bootstrap ''-->'')"
  by (auto simp: serializeProps_def replace_lt_no_lt HyperBunHydrationScripts_def
      sanitizeScript_safe split: option.splits if_splits simp del: contains.simps)

theorem bootstrap_payload_escaped_witness:
  "serializeProps Some (example_quote ''</script>'') =
       Inr (example_quote (CHR 0x5C # ''u003c/script>''))
   \<and> CHR ''<'' \<notin> set (example_quote (CHR 0x5C # ''u003c/script>''))
   \<and> HyperBunHydrationScripts example_quote example_hydration =
       Some (example_bootstrap, ''/public/hyperbun-client.js'')
   \<and> \<not> contains example_bootstrap ''</''
   \<and> \<not> contains example_bootstrap ''-->''"
proof -
  have a: "serializeProps Some (example_quote ''</script>'') =
       Inr (example_quote (CHR 0x5C # ''u003c/script>''))"
    by code_simp
  have b: "HyperBunHydrationScripts example_quote example_hydration =
       Some (example_bootstrap, ''/public/hyperbun-client.js'')"
    by code_simp
  from bootstrap_payload_escaped [of Some "example_quote ''</script>''"
      "example_quote (CHR 0x5C # ''u003c/script>'')" example_quote example_hydration
      example_bootstrap "''/public/hyperbun-client.js''"] a b
  show ?thesis by simp
qed

section \<open>Properties of the JSX set-up\<close>

lemma build_other:
  "buildComponentDescriptors d ps baseDir acc = Inr ds \<Longrightarrow> r \<notin> fst ` set ps \<Longrightarrow>
   map_of ds r = map_of acc r"
proof (induction ps arbitrary: acc)
  case Nil
  then show ?case by simp
next
  case (Cons a ps)
  obtain route page where a: "a = (route, page)" by (cases a)
  from Cons.prems obtain desc where
    n: "normalizeComponentSpec d (page_component page) baseDir = Inr desc" and
    rest: "buildComponentDescriptors d ps baseDir (map_set route desc acc) = Inr ds"
    by (auto simp: a split: sum.splits)
  from Cons.prems(2) have "r \<notin> fst ` set ps" and "r \<noteq> route" by (auto simp: a)
  with Cons.IH [OF rest] show ?case by (simp add: map_of_map_set)
qed

lemma build_member:
  "buildComponentDescriptors d ps baseDir acc = Inr ds \<Longrightarrow> distinct (map fst ps) \<Longrightarrow>
   (route, page) \<in> set ps \<Longrightarrow>
   normalizeComponentSpec d (page_component page) baseDir = Inr desc \<Longrightarrow>
   map_of ds route = Some desc"
proof (induction ps arbitrary: acc)
  case Nil
  then show ?case by simp
next
  case (Cons a ps)
  obtain r0 p0 where a: "a = (r0, p0)" by (cases a)
  from Cons.prems(1) obtain d0 where
    n: "normalizeComponentSpec d (page_component p0) baseDir = Inr d0" and
    rest: "buildComponentDescriptors d ps baseDir (map_set r0 d0 acc) = Inr ds"
    by (auto simp: a split: sum.splits)
  from Cons.prems(2) have dist: "distinct (map fst ps)" and fresh: "r0 \<notin> fst ` set ps"
    by (auto simp: a)
  show ?case
  proof (cases "(route, page) = (r0, p0)")
    case True
    with n Cons.prems(4) have "d0 = desc" by simp
    with build_other [OF rest fresh] True show ?thesis by (simp add: map_of_map_set)
  next
    case False
    with Cons.prems(3) have "(route, page) \<in> set ps" by (auto simp: a)
    from Cons.IH [OF rest dist this Cons.prems(4)] show ?thesis .
  qed
qed

lemma check_fails:
  "(route, desc) \<in> set ds \<Longrightarrow> map_of pages route = Some page \<Longrightarrow>
   wantsHydration (page_hydrate page) \<Longrightarrow> nc_reference desc = None \<Longrightarrow>
   \<exists>e. check_descriptors pages ds acc = Inl e"
proof (induction ds arbitrary: acc)
  case Nil
  then show ?case by simp
next
  case (Cons a ds)
  obtain r0 d0 where a: "a = (r0, d0)" by (cases a)
  show ?case
  proof (cases "(route, desc) = (r0, d0)")
    case True
    with Cons.prems show ?thesis
      by (simp add: a ensureHydratableCapability_def)
  next
    case False
    with Cons.prems(1) have "(route, desc) \<in> set ds" by (auto simp: a)
    from Cons.IH [OF this Cons.prems(2,3,4)] show ?thesis
      by (auto simp: a split: option.splits sum.splits)
  qed
qed

lemma set_map_set: "set (map_set k v hs) \<subseteq> insert (k, v) (set hs)"
  by (induction hs) (auto split: if_splits)

lemma build_succeeds:
  "list_all (\<lambda>(r, p). normalises d baseDir (page_component p)) ps \<Longrightarrow>
   \<exists>ds. buildComponentDescriptors d ps baseDir acc = Inr ds"
proof (induction ps arbitrary: acc)
  case Nil
  then show ?case by simp
next
  case (Cons a ps)
  obtain route page where a: "a = (route, page)" by (cases a)
  from Cons.prems obtain desc where
    n: "normalizeComponentSpec d (page_component page) baseDir = Inr desc"
    by (auto simp: a normalises_def split: sum.splits)
  from Cons.prems have "list_all (\<lambda>(r, p). normalises d baseDir (page_component p)) ps"
    by simp
  from Cons.IH [OF this] show ?case by (simp add: a n)
qed

lemma build_sound:
  "buildComponentDescriptors d ps baseDir acc = Inr ds \<Longrightarrow> (r, desc) \<in> set ds \<Longrightarrow>
   (r, desc) \<in> set acc
   \<or> (\<exists>page. (r, page) \<in> set ps
         \<and> normalizeComponentSpec d (page_component page) baseDir = Inr desc)"
proof (induction ps arbitrary: acc)
  case Nil
  then show ?case by simp
next
  case (Cons a ps)
  obtain route page where a: "a = (route, page)" by (cases a)
  from Cons.prems(1) obtain d0 where
    n: "normalizeComponentSpec d (page_component page) baseDir = Inr d0" and
    rest: "buildComponentDescriptors d ps baseDir (map_set route d0 acc) = Inr ds"
    by (auto simp: a split: sum.splits)
  from Cons.IH [OF rest Cons.prems(2)] consider
    "(r, desc) \<in> set (map_set route d0 acc)"
    | "\<exists>page. (r, page) \<in> set ps
         \<and> normalizeComponentSpec d (page_component page) baseDir = Inr desc"
    by blast
  then show ?case
  proof cases
    case 1
    with set_map_set [of route d0 acc] have "(r, desc) = (route, d0) \<or> (r, desc) \<in> set acc"
      by auto
    with n show ?thesis by (auto simp: a)
  next
    case 2
    then show ?thesis by (auto simp: a)
  qed
qed

lemma check_succeeds:
  "list_all (\<lambda>(r, desc). case map_of pages r of
        None \<Rightarrow> False
      | Some page \<Rightarrow> \<not> (wantsHydration (page_hydrate page) \<and> nc_reference desc = None)) ds \<Longrightarrow>
   \<exists>b. check_descriptors pages ds acc = Inr b"
proof (induction ds arbitrary: acc)
  case Nil
  then show ?case by simp
next
  case (Cons a ds)
  obtain r desc where a: "a = (r, desc)" by (cases a)
  from Cons.prems obtain page where
    look: "map_of pages r = Some page" and
    ok: "\<not> (wantsHydration (page_hydrate page) \<and> nc_reference desc = None)"
    by (auto simp: a split: option.splits)
  from Cons.prems have rest: "list_all (\<lambda>(r, desc). case map_of pages r of
        None \<Rightarrow> False
      | Some page \<Rightarrow> \<not> (wantsHydration (page_hydrate page) \<and> nc_reference desc = None)) ds"
    by simp
  have e: "ensureHydratableCapability r (page_hydrate page) desc False = Inr ()"
    using ok by (simp add: ensureHydratableCapability_def)
  from Cons.IH [OF rest] show ?case by (simp add: a look e)
qed

lemma hydratable_normalises:
  "hydratable d baseDir page \<Longrightarrow> normalises d baseDir (page_component page)"
  by (simp add: hydratable_def normalises_def split: sum.splits)

lemma prepare_succeeds:
  assumes dist: "distinct (map fst (in_pages input))"
    and ne: "in_pages input \<noteq> []"
    and pages: "list_all (\<lambda>(r, p). hydratable d (in_baseDir input) p) (in_pages input)"
    and layout: "case in_layout input of None \<Rightarrow> True
                 | Some l \<Rightarrow> normalises d (in_baseDir input) l"
    and nf: "case in_notFoundPage input of None \<Rightarrow> True
             | Some p \<Rightarrow> hydratable d (in_baseDir input) p"
  shows "\<exists>prep. prepareJSXEnvironment d input = Inr prep"
proof -
  have "list_all (\<lambda>(r, p). normalises d (in_baseDir input) (page_component p)) (in_pages input)"
    using pages by (auto simp: list_all_iff hydratable_normalises)
  from build_succeeds [OF this, of "[]"] obtain ds where
    b: "buildComponentDescriptors d (in_pages input) (in_baseDir input) [] = Inr ds" by blast
  have "list_all (\<lambda>(r, desc). case map_of (in_pages input) r of
        None \<Rightarrow> False
      | Some page \<Rightarrow> \<not> (wantsHydration (page_hydrate page) \<and> nc_reference desc = None)) ds"
    unfolding list_all_iff
  proof (intro ballI)
    fix x assume x: "x \<in> set ds"
    obtain r desc where xe: "x = (r, desc)" by (cases x)
    from build_sound [OF b x [unfolded xe]] obtain page where
      mem: "(r, page) \<in> set (in_pages input)" and
      n: "normalizeComponentSpec d (page_component page) (in_baseDir input) = Inr desc"
      by auto
    from mem dist have look: "map_of (in_pages input) r = Some page" by simp
    from pages mem have "hydratable d (in_baseDir input) page" by (auto simp: list_all_iff)
    with n have "\<not> (wantsHydration (page_hydrate page) \<and> nc_reference desc = None)"
      by (simp add: hydratable_def)
    with look show "case x of (r, desc) \<Rightarrow> case map_of (in_pages input) r of
        None \<Rightarrow> False
      | Some page \<Rightarrow> \<not> (wantsHydration (page_hydrate page) \<and> nc_reference desc = None)"
      by (simp add: xe)
  qed
  from check_succeeds [OF this, of "[]"] obtain refs where
    c: "check_descriptors (in_pages input) ds [] = Inr refs" by blast
  have l: "\<exists>ld. (case in_layout input of
                   None \<Rightarrow> Inr None
                 | Some l \<Rightarrow>
                     (case normalizeComponentSpec d l (in_baseDir input) of
                        Inl e \<Rightarrow> Inl e
                      | Inr d \<Rightarrow> Inr (Some d))) = Inr ld"
    using layout by (auto simp: normalises_def split: option.splits sum.splits)
  have n: "\<exists>nd. (case in_notFoundPage input of
                   None \<Rightarrow> Inr (None, refs)
                 | Some nf \<Rightarrow>
                     (case normalizeComponentSpec d (page_component nf) (in_baseDir input) of
                        Inl e \<Rightarrow> Inl e
                      | Inr d \<Rightarrow>
                          (case ensureHydratableCapability ''notFound'' (page_hydrate nf) d True of
                             Inl e \<Rightarrow> Inl e
                           | Inr u \<Rightarrow>
                               Inr (Some d,
                                    (case nc_reference d of
                                       None \<Rightarrow> refs
                                     | Some r \<Rightarrow> map_set NOT_FOUND_KEY r refs))))) = Inr nd"
    using nf
    by (auto simp: hydratable_def ensureHydratableCapability_def split: option.splits sum.splits)
  from l obtain ld where l': "(case in_layout input of
                   None \<Rightarrow> Inr None
                 | Some l \<Rightarrow>
                     (case normalizeComponentSpec d l (in_baseDir input) of
                        Inl e \<Rightarrow> Inl e
                      | Inr d \<Rightarrow> Inr (Some d))) = Inr ld" ..
  from n obtain nd where n': "(case in_notFoundPage input of
                   None \<Rightarrow> Inr (None, refs)
                 | Some nf \<Rightarrow>
                     (case normalizeComponentSpec d (page_component nf) (in_baseDir input) of
                        Inl e \<Rightarrow> Inl e
                      | Inr d \<Rightarrow>
                          (case ensureHydratableCapability ''notFound'' (page_hydrate nf) d True of
                             Inl e \<Rightarrow> Inl e
                           | Inr u \<Rightarrow>
                               Inr (Some d,
                                    (case nc_reference d of
                                       None \<Rightarrow> refs
                                     | Some r \<Rightarrow> map_set NOT_FOUND_KEY r refs))))) = Inr nd" ..
  obtain nfd refs' where nd: "nd = (nfd, refs')" by (cases nd)
  show ?thesis
    unfolding prepareJSXEnvironment_def Let_def
    by (simp add: ne b c l' n' nd)
qed

text \<open>
  C8. When a page of the configuration asks for hydration (\<open>hydrate\<close> omitted, true, or a
  function) and its component normalises to a descriptor without a module reference,
  \<open>prepareJSXEnvironment\<close> raises, and with it the set-up of the JSX server, before a server
  exists; the same holds for the not-found page. The check never raises for a page whose
  \<open>hydrate\<close> is false, and such a page is hydratable as soon as its component normalises.
  A configuration with at least one page in which every page and the not-found page are
  hydratable (the component normalises, and has a module reference if hydration is asked
  for) and the layout normalises is set up without an error: pages whose \<open>hydrate\<close> is
  false cannot make the set-up fail for want of a module reference. The pages are the
  entries of an object, so their routes are distinct.
\<close>

theorem hydration_without_reference_fails_setup:
  assumes "distinct (map fst (in_pages input))"
  shows
    "((route, page) \<in> set (in_pages input)
        \<and> wantsHydration (page_hydrate page)
        \<and> normalizeComponentSpec d (page_component page) (in_baseDir input) = Inr desc
        \<and> nc_reference desc = None
      \<longrightarrow> (\<exists>e. prepareJSXEnvironment d input = Inl e))
     \<and> (in_notFoundPage input = Some nf
        \<and> wantsHydration (page_hydrate nf)
        \<and> normalizeComponentSpec d (page_component nf) (in_baseDir input) = Inr desc
        \<and> nc_reference desc = None
      \<longrightarrow> (\<exists>e. prepareJSXEnvironment d input = Inl e))
     \<and> ensureHydratableCapability route (Some (HydrateBool False)) desc isNotFound = Inr ()
     \<and> (page_hydrate page = Some (HydrateBool False)
        \<and> normalizeComponentSpec d (page_component page) (in_baseDir input) = Inr desc
      \<longrightarrow> hydratable d (in_baseDir input) page)
     \<and> (in_pages input \<noteq> []
        \<and> list_all (\<lambda>(r, p). hydratable d (in_baseDir input) p) (in_pages input)
        \<and> (case in_layout input of None \<Rightarrow> True
            | Some l \<Rightarrow> normalises d (in_baseDir input) l)
        \<and> (case in_notFoundPage input of None \<Rightarrow> True
            | Some p \<Rightarrow> hydratable d (in_baseDir input) p)
      \<longrightarrow> (\<exists>prep. prepareJSXEnvironment d input = Inr prep))"
proof -
  have pages: "(route, page) \<in> set (in_pages input)
        \<and> wantsHydration (page_hydrate page)
        \<and> normalizeComponentSpec d (page_component page) (in_baseDir input) = Inr desc
        \<and> nc_reference desc = None
      \<longrightarrow> (\<exists>e. prepareJSXEnvironment d input = Inl e)"
  proof
    assume h: "(route, page) \<in> set (in_pages input)
        \<and> wantsHydration (page_hydrate page)
        \<and> normalizeComponentSpec d (page_component page) (in_baseDir input) = Inr desc
        \<and> nc_reference desc = None"
    then have ne: "in_pages input \<noteq> []" by auto
    from h assms have look: "map_of (in_pages input) route = Some page" by simp
    show "\<exists>e. prepareJSXEnvironment d input = Inl e"
    proof (cases "buildComponentDescriptors d (in_pages input) (in_baseDir input) []")
      case (Inl e)
      with ne show ?thesis by (simp add: prepareJSXEnvironment_def Let_def)
    next
      case (Inr ds)
      from h build_member [OF Inr assms] have "map_of ds route = Some desc" by blast
      then have mem: "(route, desc) \<in> set ds" by (rule map_of_SomeD)
      from h have w: "wantsHydration (page_hydrate page)" and r: "nc_reference desc = None"
        by simp_all
      have "\<exists>e. check_descriptors (in_pages input) ds [] = Inl e"
        by (rule check_fails [OF mem look w r])
      then obtain e where "check_descriptors (in_pages input) ds [] = Inl e" ..
      with ne Inr show ?thesis by (simp add: prepareJSXEnvironment_def Let_def)
    qed
  qed
  have nf: "in_notFoundPage input = Some nf
        \<and> wantsHydration (page_hydrate nf)
        \<and> normalizeComponentSpec d (page_component nf) (in_baseDir input) = Inr desc
        \<and> nc_reference desc = None
      \<longrightarrow> (\<exists>e. prepareJSXEnvironment d input = Inl e)"
    by (auto simp: prepareJSXEnvironment_def Let_def ensureHydratableCapability_def
        split: sum.splits option.splits)
  have off: "ensureHydratableCapability route (Some (HydrateBool False)) desc isNotFound = Inr ()"
    by (simp add: ensureHydratableCapability_def wantsHydration_def)
  have static: "page_hydrate page = Some (HydrateBool False)
        \<and> normalizeComponentSpec d (page_component page) (in_baseDir input) = Inr desc
      \<longrightarrow> hydratable d (in_baseDir input) page"
    by (simp add: hydratable_def wantsHydration_def)
  have good: "in_pages input \<noteq> []
        \<and> list_all (\<lambda>(r, p). hydratable d (in_baseDir input) p) (in_pages input)
        \<and> (case in_layout input of None \<Rightarrow> True
            | Some l \<Rightarrow> normalises d (in_baseDir input) l)
        \<and> (case in_notFoundPage input of None \<Rightarrow> True
            | Some p \<Rightarrow> hydratable d (in_baseDir input) p)
      \<longrightarrow> (\<exists>prep. prepareJSXEnvironment d input = Inr prep)"
    using prepare_succeeds [OF assms] by blast
  from pages nf off static good show ?thesis by blast
qed

theorem hydration_without_reference_fails_setup_witness:
  "distinct (map fst (in_pages example_jsx_input))
   \<and> wantsHydration (page_hydrate example_home_page)
   \<and> normalizeComponentSpec ''/srv/app'' (page_component example_home_page)
        (in_baseDir example_jsx_input) = Inr example_home_descriptor
   \<and> (\<exists>e. prepareJSXEnvironment ''/srv/app'' example_jsx_input = Inl e)
   \<and> ensureHydratableCapability ''/'' (Some (HydrateBool False))
        example_home_descriptor True = Inr ()
   \<and> distinct (map fst (in_pages example_plain_input))
   \<and> hydratable ''/srv/app'' (in_baseDir example_plain_input) example_static_page
   \<and> (\<exists>prep. prepareJSXEnvironment ''/srv/app'' example_plain_input = Inr prep)"
proof -
  have dist: "distinct (map fst (in_pages example_jsx_input))"
    and mem: "(''/'', example_home_page) \<in> set (in_pages example_jsx_input)"
    by (simp_all add: example_jsx_input_def)
  have w: "wantsHydration (page_hydrate example_home_page)"
    by (simp add: wantsHydration_def example_home_page_def)
  have n: "normalizeComponentSpec ''/srv/app'' (page_component example_home_page)
        (in_baseDir example_jsx_input) = Inr example_home_descriptor"
    by (simp add: normalizeComponentSpec_def example_home_page_def example_home_descriptor_def)
  have r: "nc_reference example_home_descriptor = None"
    by (simp add: example_home_descriptor_def)
  have dist2: "distinct (map fst (in_pages example_plain_input))"
    and ne2: "in_pages example_plain_input \<noteq> []"
    and layout2: "in_layout example_plain_input = None"
    and nf2: "in_notFoundPage example_plain_input =
        Some \<lparr>page_component = SpecFunction ''NotFound'',
             page_hydrate = Some (HydrateBool False)\<rparr>"
    and pages2: "in_pages example_plain_input = [(''/about'', example_static_page)]"
    by (simp_all add: example_plain_input_def example_jsx_input_def)
  have hy: "page_hydrate example_static_page = Some (HydrateBool False)"
    "normalizeComponentSpec ''/srv/app'' (page_component example_static_page)
        (in_baseDir example_plain_input) = Inr \<lparr>nc_component = Some ''About'', nc_reference = None\<rparr>"
    "hydratable ''/srv/app'' (in_baseDir example_plain_input)
        \<lparr>page_component = SpecFunction ''NotFound'', page_hydrate = Some (HydrateBool False)\<rparr>"
    by (simp_all add: example_static_page_def normalizeComponentSpec_def hydratable_def
        wantsHydration_def)
  from hydration_without_reference_fails_setup [OF dist, where route = "''/''"
      and page = example_home_page and d = "''/srv/app''" and desc = example_home_descriptor
      and nf = example_home_page and isNotFound = True]
    mem w n r dist
  have first: "(\<exists>e. prepareJSXEnvironment ''/srv/app'' example_jsx_input = Inl e)
     \<and> ensureHydratableCapability ''/'' (Some (HydrateBool False))
        example_home_descriptor True = Inr ()"
    by simp
  from hydration_without_reference_fails_setup [OF dist2, where route = "''/about''"
      and page = example_static_page and d = "''/srv/app''"
      and desc = "\<lparr>nc_component = Some ''About'', nc_reference = None\<rparr>"
      and nf = example_static_page and isNotFound = False]
    hy
  have h2: "hydratable ''/srv/app'' (in_baseDir example_plain_input) example_static_page"
    by simp
  from hydration_without_reference_fails_setup [OF dist2, where route = "''/about''"
      and page = example_static_page and d = "''/srv/app''"
      and desc = "\<lparr>nc_component = Some ''About'', nc_reference = None\<rparr>"
      and nf = example_static_page and isNotFound = False]
    ne2 layout2 nf2 pages2 h2 hy(3)
  have second: "\<exists>prep. prepareJSXEnvironment ''/srv/app'' example_plain_input = Inr prep"
    by simp
  from dist w n first dist2 h2 second show ?thesis by simp
qed

end
